theory Spec2Isabelle
  imports Complex_Main "HOL-Library.Sublist"
begin

section \<open>Python strings\<close>

text \<open>
  A Python \<open>str\<close> is a sequence of Unicode code points, so it is modelled as a list of
  natural numbers; \<open>len\<close>, indexing and iteration then count what Python counts.
  \<open>str\<close> turns an ASCII literal into such a list.
\<close>

type_synonym pystr = "nat list"

definition str :: "string \<Rightarrow> pystr" where
  "str s = map of_char s"

text \<open>
  The code points for which \<open>str.isspace\<close> holds; \<open>str.strip()\<close> removes exactly these,
  and \<open>\s\<close> in a \<open>re\<close> pattern over \<open>str\<close> matches exactly these.
\<close>

definition is_space :: "nat \<Rightarrow> bool" where
  "is_space c \<longleftrightarrow>
     c \<in> set [0x9, 0xA, 0xB, 0xC, 0xD, 0x1C, 0x1D, 0x1E, 0x1F, 0x20, 0x85, 0xA0, 0x1680,
              0x2000, 0x2001, 0x2002, 0x2003, 0x2004, 0x2005, 0x2006, 0x2007, 0x2008,
              0x2009, 0x200A, 0x2028, 0x2029, 0x202F, 0x205F, 0x3000]"

definition strip :: "pystr \<Rightarrow> pystr" where
  "strip s = rev (dropWhile is_space (rev (dropWhile is_space s)))"

text \<open>
  \<open>str.lower()\<close>. It is exact on ASCII and on the two code points above ASCII whose
  lower case contains an ASCII letter (U+0130 and U+212A, the Kelvin sign); every other
  code point is left as it is. The lower case of such a code point never contains an
  ASCII character, so comparing the result with an ASCII literal, the only use the
  program makes of \<open>lower\<close>, gives what Python gives.
\<close>

definition lower_char :: "nat \<Rightarrow> pystr" where
  "lower_char c =
     (if 0x41 \<le> c \<and> c \<le> 0x5A then [c + 0x20]
      else if c = 0x130 then [0x69, 0x307]
      else if c = 0x212A then [0x6B]
      else [c])"

definition lower :: "pystr \<Rightarrow> pystr" where
  "lower s = concat (map lower_char s)"

section \<open>Stripping the code fence: \<open>clean_and_parse_json\<close>\<close>

text \<open>
  \<open>re.search(r"```(?:json)?\s*(.*?)\s*```", response, re.DOTALL)\<close> is written out as the
  backtracking search it is, one function for each part of the pattern, every
  alternative tried in the order the \<open>re\<close> engine tries it.

  \<^item> \<open>closes\<close>: the tail \<open>\s*```\<close> matches at the head of the text (the greedy \<open>\s*\<close>
    takes a white space and goes on, or stops and the fence follows);
  \<^item> \<open>group1\<close>: the lazy group \<open>(.*?)\<close> followed by that tail: the group grows by one
    character (any character, as \<open>DOTALL\<close> is set) only when the tail does not match
    yet; the result is the text of the group;
  \<^item> \<open>after_ws\<close>: the first, greedy \<open>\s*\<close> before the group: it takes a white space if
    the rest can still match, and gives it back otherwise;
  \<^item> \<open>after_fence\<close>: the optional, greedy \<open>(?:json)?\<close>;
  \<^item> \<open>match_here\<close>: the whole pattern at the head of the text;
  \<^item> \<open>re_search\<close>: the leftmost position where the pattern matches.
\<close>

definition fence :: pystr where
  "fence = str ''```''"

definition json_tag :: pystr where
  "json_tag = str ''json''"

fun closes :: "pystr \<Rightarrow> bool" where
  "closes [] = False"
| "closes (c # cs) = ((is_space c \<and> closes cs) \<or> prefix fence (c # cs))"

fun group1 :: "pystr \<Rightarrow> pystr option" where
  "group1 [] = None"
| "group1 (c # cs) = (if closes (c # cs) then Some [] else map_option ((#) c) (group1 cs))"

fun after_ws :: "pystr \<Rightarrow> pystr option" where
  "after_ws [] = group1 []"
| "after_ws (c # cs) =
     (if is_space c
      then (case after_ws cs of Some g \<Rightarrow> Some g | None \<Rightarrow> group1 (c # cs))
      else group1 (c # cs))"

definition after_fence :: "pystr \<Rightarrow> pystr option" where
  "after_fence r =
     (if prefix json_tag r
      then (case after_ws (drop 4 r) of Some g \<Rightarrow> Some g | None \<Rightarrow> after_ws r)
      else after_ws r)"

definition match_here :: "pystr \<Rightarrow> pystr option" where
  "match_here t = (if prefix fence t then after_fence (drop 3 t) else None)"

fun re_search :: "pystr \<Rightarrow> pystr option" where
  "re_search [] = match_here []"
| "re_search (c # cs) =
     (case match_here (c # cs) of Some g \<Rightarrow> Some g | None \<Rightarrow> re_search cs)"

text \<open>
  The function returns the text of the group when the pattern matches and the stripped
  response otherwise. Despite its name it parses nothing: its \<open>try\<close> block only returns
  the cleaned text, and the caller calls \<open>json.loads\<close>.
\<close>

definition clean_and_parse_json :: "pystr \<Rightarrow> pystr" where
  "clean_and_parse_json response =
     (case re_search response of Some g \<Rightarrow> g | None \<Rightarrow> strip response)"

text \<open>
  Wrapping a content in a code fence: the opening fence, the optional tag, white space,
  the content, white space, the closing fence. \<open>has_fence\<close> says that three backticks
  in a row occur in a text.
\<close>

definition fence_wrap :: "pystr \<Rightarrow> pystr \<Rightarrow> pystr \<Rightarrow> pystr \<Rightarrow> pystr" where
  "fence_wrap tag pre post content = fence @ tag @ pre @ content @ post @ fence"

fun has_fence :: "pystr \<Rightarrow> bool" where
  "has_fence [] = False"
| "has_fence (c # cs) = (prefix fence (c # cs) \<or> has_fence cs)"

section \<open>Python values\<close>

text \<open>
  The values the program handles: what \<open>json.loads\<close> returns and what the console
  gives. A \<open>dict\<close> is its list of items in insertion order. A JSON number with a fraction
  or an exponent is a Python \<open>float\<close>; it is carried as the real number it denotes (the
  program does no arithmetic on it), and the three non-finite floats that \<open>json.loads\<close>
  also accepts are left out.
\<close>

datatype pyval =
    PNone
  | PBool bool
  | PInt int
  | PFloat real
  | PStr pystr
  | PList "pyval list"
  | PDict "(pyval \<times> pyval) list"

type_synonym pydict = "(pyval \<times> pyval) list"

datatype value_error =
  EmptyResponse | NoObjectStart | JsonParsing | UpdateSequence | IntegerDigits

text \<open>
  The exceptions a run can end with. \<open>ValueError\<close> carries where it comes from: one of
  the three \<open>raise ValueError\<close> statements of the source, \<open>dict.update\<close> given a sequence
  whose elements are not pairs, or the conversion of an integer literal with more digits
  than the interpreter allows. \<open>JSONDecodeError\<close> and \<open>UnicodeEncodeError\<close> are in Python
  subclasses of \<open>ValueError\<close>; they are kept apart because the source catches the first
  by its name. \<open>OSError\<close> stands for itself and its subclasses (\<open>FileNotFoundError\<close>,
  \<open>PermissionError\<close>). \<open>EOFError\<close> is \<open>input()\<close> on an exhausted console.
  \<open>ExternalFailure\<close> stands for a call of the model endpoint or of the agent runtime
  that gives no reply. \<open>Diverges\<close> marks a loop that would repeat forever.
\<close>

datatype error =
    ValueError value_error
  | JSONDecodeError
  | UnicodeEncodeError
  | OSError
  | AttributeError
  | TypeError
  | KeyError
  | IndexError
  | EOFError
  | ExternalFailure
  | Diverges

subsection \<open>Dictionaries\<close>

text \<open>
  Keys are compared as Python compares them: \<open>True == 1 == 1.0\<close>. A \<open>list\<close> or a \<open>dict\<close>
  is not hashable and cannot be a key.
\<close>

fun key_norm :: "pyval \<Rightarrow> pyval" where
  "key_norm (PBool b) = PInt (if b then 1 else 0)"
| "key_norm (PFloat r) = (if of_int \<lfloor>r\<rfloor> = r then PInt \<lfloor>r\<rfloor> else PFloat r)"
| "key_norm v = v"

definition key_eq :: "pyval \<Rightarrow> pyval \<Rightarrow> bool" where
  "key_eq a b \<longleftrightarrow> key_norm a = key_norm b"

fun hashable :: "pyval \<Rightarrow> bool" where
  "hashable (PList xs) = False"
| "hashable (PDict d) = False"
| "hashable v = True"

fun dict_get :: "pydict \<Rightarrow> pyval \<Rightarrow> pyval option" where
  "dict_get [] k = None"
| "dict_get ((k', v) # d) k = (if key_eq k' k then Some v else dict_get d k)"

fun dict_set :: "pydict \<Rightarrow> pyval \<Rightarrow> pyval \<Rightarrow> pydict" where
  "dict_set [] k v = [(k, v)]"
| "dict_set ((k', v') # d) k v =
     (if key_eq k' k then (k', v) # d else (k', v') # dict_set d k v)"

definition dict_get_default :: "pydict \<Rightarrow> pystr \<Rightarrow> pyval \<Rightarrow> pyval" where
  "dict_get_default d k dflt = (case dict_get d (PStr k) of Some v \<Rightarrow> v | None \<Rightarrow> dflt)"

subsection \<open>Operations that raise on the wrong type\<close>

text \<open>\<open>v.get(k, dflt)\<close>: only a \<open>dict\<close> has \<open>get\<close>.\<close>

definition py_get :: "pyval \<Rightarrow> pystr \<Rightarrow> pyval \<Rightarrow> error + pyval" where
  "py_get v k dflt =
     (case v of PDict d \<Rightarrow> Inr (dict_get_default d k dflt) | _ \<Rightarrow> Inl AttributeError)"

text \<open>\<open>len(v)\<close>.\<close>

definition py_len :: "pyval \<Rightarrow> error + nat" where
  "py_len v =
     (case v of PStr s \<Rightarrow> Inr (length s) | PList xs \<Rightarrow> Inr (length xs)
      | PDict d \<Rightarrow> Inr (length d) | _ \<Rightarrow> Inl TypeError)"

text \<open>\<open>v[i]\<close> for an index \<open>i \<ge> 0\<close>: an element, a character, or the item under key \<open>i\<close>.\<close>

definition py_index :: "pyval \<Rightarrow> nat \<Rightarrow> error + pyval" where
  "py_index v i =
     (case v of
        PList xs \<Rightarrow> (if i < length xs then Inr (xs ! i) else Inl IndexError)
      | PStr s \<Rightarrow> (if i < length s then Inr (PStr [s ! i]) else Inl IndexError)
      | PDict d \<Rightarrow> (case dict_get d (PInt (int i)) of Some x \<Rightarrow> Inr x | None \<Rightarrow> Inl KeyError)
      | _ \<Rightarrow> Inl TypeError)"

text \<open>\<open>v.lower()\<close>: only a \<open>str\<close> has \<open>lower\<close>.\<close>

definition py_lower :: "pyval \<Rightarrow> error + pystr" where
  "py_lower v = (case v of PStr s \<Rightarrow> Inr (lower s) | _ \<Rightarrow> Inl AttributeError)"

text \<open>Iterating \<open>v\<close>: the elements of a list, the characters of a string, the keys of a dict.\<close>

definition py_iter :: "pyval \<Rightarrow> error + pyval list" where
  "py_iter v =
     (case v of PList xs \<Rightarrow> Inr xs | PStr s \<Rightarrow> Inr (map (\<lambda>c. PStr [c]) s)
      | PDict d \<Rightarrow> Inr (map fst d) | _ \<Rightarrow> Inl TypeError)"

text \<open>\<open>v.items()\<close>: only a \<open>dict\<close> has \<open>items\<close>.\<close>

definition py_items :: "pyval \<Rightarrow> error + pydict" where
  "py_items v = (case v of PDict d \<Rightarrow> Inr d | _ \<Rightarrow> Inl AttributeError)"

text \<open>
  \<open>for i in range(n): print(v[i])\<close>: the loops that print the entries of a reply one by
  one touch every index; the first index that raises ends them. The first argument
  counts the indices left, the second is the index.
\<close>

fun index_all :: "nat \<Rightarrow> nat \<Rightarrow> pyval \<Rightarrow> error + unit" where
  "index_all 0 i v = Inr ()"
| "index_all (Suc k) i v =
     (case py_index v i of Inl e \<Rightarrow> Inl e | Inr x \<Rightarrow> index_all k (Suc i) v)"

text \<open>
  \<open>d.update(v)\<close>. A dict is merged item by item. Anything else is iterated, and every
  element must itself be a sequence of exactly two values, the key and the value. The
  items before a failing element stay in the dictionary.
\<close>

fun update_pairs :: "pydict \<Rightarrow> pyval list \<Rightarrow> error option \<times> pydict" where
  "update_pairs d [] = (None, d)"
| "update_pairs d (item # items) =
     (case py_iter item of
        Inl e \<Rightarrow> (Some TypeError, d)
      | Inr [k, v] \<Rightarrow>
          (if hashable k then update_pairs (dict_set d k v) items else (Some TypeError, d))
      | Inr _ \<Rightarrow> (Some (ValueError UpdateSequence), d))"

definition dict_update :: "pydict \<Rightarrow> pyval \<Rightarrow> error option \<times> pydict" where
  "dict_update d v =
     (case v of
        PDict kv \<Rightarrow> (None, foldl (\<lambda>acc (k, x). dict_set acc k x) d kv)
      | _ \<Rightarrow> (case py_iter v of Inl e \<Rightarrow> (Some TypeError, d)
              | Inr items \<Rightarrow> update_pairs d items))"

text \<open>\<open>sep.join(parts)\<close>.\<close>

fun join :: "pystr \<Rightarrow> pystr list \<Rightarrow> pystr" where
  "join sep [] = []"
| "join sep [x] = x"
| "join sep (x # y # ys) = x @ sep @ join sep (y # ys)"

subsection \<open>Library functions taken as parameters\<close>

text \<open>
  \<open>json.loads\<close>, \<open>json.dumps(v, ensure_ascii=False, indent=2)\<close>, and the text an f-string
  gives for a value. They belong to the Python library, not to the program.
  \<open>json_loads\<close> gives the value parsed or the exception raised: \<open>JSONDecodeError\<close> for a
  text that is not JSON, and in the interpreters that limit the digits of an integer the
  plain \<open>ValueError IntegerDigits\<close> for a JSON text with a longer integer literal.
\<close>

record pylib =
  json_loads :: "pystr \<Rightarrow> error + pyval"
  json_dumps :: "pyval \<Rightarrow> pystr"
  format_value :: "pyval \<Rightarrow> pystr"

section \<open>The flow state\<close>

text \<open>The three state classes of the program, with the names the source gives them.\<close>

record ProcessOutline =
  complete_sections :: "pystr list"
  supplementary_inquiries :: pydict
  suggested_diagnostic_dialectics :: "pydict list"
  supplementary_auxiliary_examinations :: pydict

record InitialInquriy =
  main_complain :: pystr
  history_of_present_illness :: pystr
  past_medical_history :: pystr
  allergy_history :: pystr
  family_history :: pystr
  physical_examination :: pystr
  personal_history :: pystr
  auxiliary_examination :: pydict

record PatientState =
  initial_inquiry :: InitialInquriy
  audience_level :: pystr
  process_outline :: ProcessOutline
  diagnosis_result :: pydict
  treatment_plan :: pydict

text \<open>The state a new flow starts from: the defaults of the three classes.\<close>

definition default_state :: PatientState where
  "default_state =
     \<lparr>initial_inquiry =
        \<lparr>main_complain = [], history_of_present_illness = [], past_medical_history = [],
         allergy_history = [], family_history = [], physical_examination = [],
         personal_history = [], auxiliary_examination = []\<rparr>,
      audience_level = [],
      process_outline =
        \<lparr>complete_sections = [], supplementary_inquiries = [],
         suggested_diagnostic_dialectics = [], supplementary_auxiliary_examinations = []\<rparr>,
      diagnosis_result = [],
      treatment_plan = []\<rparr>"

section \<open>The world a run lives in\<close>

text \<open>
  Besides \<open>self.state\<close> a run reads the console, calls the model endpoint and the agent
  runtime, draws random identifiers and writes files. The world holds the lines the
  operator will type, the replies the endpoint and the runtime will give, each in the
  order they are asked for, the identifiers \<open>uuid4\<close> will draw, the files written so
  far, and a log of the crews kicked off with their input bindings. The file system and
  the encoding of text files belong to the environment as well: \<open>can_open\<close> holds of the
  paths that \<open>open(path, "w")\<close> opens (their directory exists and may be written to), and
  \<open>can_encode\<close> of the texts that the encoding of the file can represent. What the
  program prints is not modelled. A reply does not depend on the prompt: any sequence
  of replies is possible.
\<close>

datatype crew =
    DiagnosisCrew
  | PossibilitiesEliminationCrew
  | TreatmentPlanCrew
  | MultiAgentsReportCrew

record world =
  state :: PatientState
  console :: "pystr list"
  llm_replies :: "pystr list"
  crew_replies :: "pystr list"
  uuid_source :: "nat \<Rightarrow> pystr"
  uuid_count :: nat
  files :: "pystr \<rightharpoonup> pystr"
  can_open :: "pystr \<Rightarrow> bool"
  can_encode :: "pystr \<Rightarrow> bool"
  kickoffs :: "(crew \<times> (pystr \<times> pyval) list) list"

text \<open>
  A statement of the program is a function from the world to a result, a value or the
  exception raised, and the world it leaves. \<open>and_then\<close> runs two statements in
  sequence; an exception ends the sequence and keeps the world of the moment.
\<close>

type_synonym 'a action = "world \<Rightarrow> (error + 'a) \<times> world"

definition ret :: "'a \<Rightarrow> 'a action" where
  "ret x w = (Inr x, w)"

definition raise :: "error \<Rightarrow> 'a action" where
  "raise e w = (Inl e, w)"

definition lift :: "error + 'a \<Rightarrow> 'a action" where
  "lift r w = (r, w)"

definition and_then :: "'a action \<Rightarrow> ('a \<Rightarrow> 'b action) \<Rightarrow> 'b action" where
  "and_then m f w = (case m w of (Inl e, w') \<Rightarrow> (Inl e, w') | (Inr x, w') \<Rightarrow> f x w')"

definition gets :: "(world \<Rightarrow> 'a) \<Rightarrow> 'a action" where
  "gets f w = (Inr (f w), w)"

definition modify :: "(world \<Rightarrow> world) \<Rightarrow> unit action" where
  "modify f w = (Inr (), f w)"

text \<open>\<open>input()\<close>: the next line of the console.\<close>

definition input :: "pystr action" where
  "input w =
     (case console w of [] \<Rightarrow> (Inl EOFError, w) | l # ls \<Rightarrow> (Inr l, w\<lparr>console := ls\<rparr>))"

text \<open>\<open>llm.call(messages)\<close>: the next reply of the model endpoint.\<close>

definition llm_call :: "pystr action" where
  "llm_call w =
     (case llm_replies w of [] \<Rightarrow> (Inl ExternalFailure, w)
      | r # rs \<Rightarrow> (Inr r, w\<lparr>llm_replies := rs\<rparr>))"

text \<open>\<open>SomeCrew().crew().kickoff(inputs=...).raw\<close>: the call is logged, the next reply of
  the agent runtime is its raw text.\<close>

definition kickoff :: "crew \<Rightarrow> (pystr \<times> pyval) list \<Rightarrow> pystr action" where
  "kickoff c inputs w =
     (let w1 = w\<lparr>kickoffs := kickoffs w @ [(c, inputs)]\<rparr>
      in case crew_replies w1 of [] \<Rightarrow> (Inl ExternalFailure, w1)
         | r # rs \<Rightarrow> (Inr r, w1\<lparr>crew_replies := rs\<rparr>))"

text \<open>\<open>str(uuid.uuid4())\<close>.\<close>

definition uuid4 :: "pystr action" where
  "uuid4 w = (Inr (uuid_source w (uuid_count w)), w\<lparr>uuid_count := Suc (uuid_count w)\<rparr>)"

text \<open>
  \<open>with open(path, "w") as f: f.write(text)\<close>. When the path cannot be opened, \<open>open\<close>
  raises \<open>OSError\<close> (\<open>FileNotFoundError\<close> when the directory is missing) and no file is
  touched. Opening the file empties it. When the text cannot be encoded, \<open>f.write\<close> raises
  \<open>UnicodeEncodeError\<close> before anything is written and the file stays empty. Otherwise
  the file holds the text afterwards. Failures of the device while it writes are not
  modelled.
\<close>

definition write_file :: "pystr \<Rightarrow> pystr \<Rightarrow> unit action" where
  "write_file path text w =
     (if \<not> can_open w path then (Inl OSError, w)
      else if \<not> can_encode w text
      then (Inl UnicodeEncodeError, w\<lparr>files := (files w)(path \<mapsto> [])\<rparr>)
      else (Inr (), w\<lparr>files := (files w)(path \<mapsto> text)\<rparr>))"

subsection \<open>Updates of the flow state\<close>

definition outline :: "world \<Rightarrow> ProcessOutline" where
  "outline w = process_outline (state w)"

definition update_outline :: "(ProcessOutline \<Rightarrow> ProcessOutline) \<Rightarrow> world \<Rightarrow> world" where
  "update_outline f w = w\<lparr>state := (state w)\<lparr>process_outline := f (process_outline (state w))\<rparr>\<rparr>"

text \<open>\<open>self.state.process_outline.complete_sections.append(name)\<close>.\<close>

definition append_section :: "pystr \<Rightarrow> world \<Rightarrow> world" where
  "append_section name =
     update_outline (\<lambda>p. p\<lparr>complete_sections := complete_sections p @ [name]\<rparr>)"

text \<open>\<open>self.state.process_outline.supplementary_inquiries[k] = v\<close>.\<close>

definition set_supplementary_inquiry :: "pyval \<Rightarrow> pyval \<Rightarrow> world \<Rightarrow> world" where
  "set_supplementary_inquiry k v =
     update_outline (\<lambda>p. p\<lparr>supplementary_inquiries := dict_set (supplementary_inquiries p) k v\<rparr>)"

text \<open>\<open>self.state.process_outline.supplementary_auxiliary_examinations[k] = v\<close>.\<close>

definition set_auxiliary_examination :: "pyval \<Rightarrow> pyval \<Rightarrow> world \<Rightarrow> world" where
  "set_auxiliary_examination k v =
     update_outline (\<lambda>p. p\<lparr>supplementary_auxiliary_examinations :=
        dict_set (supplementary_auxiliary_examinations p) k v\<rparr>)"

text \<open>\<open>self.state.process_outline.suggested_diagnostic_dialectics.append(d)\<close>.\<close>

definition append_dialectics :: "pydict \<Rightarrow> world \<Rightarrow> world" where
  "append_dialectics d =
     update_outline (\<lambda>p. p\<lparr>suggested_diagnostic_dialectics :=
        suggested_diagnostic_dialectics p @ [d]\<rparr>)"

text \<open>\<open>self.state.diagnosis_result = {"diagnosis_conclusion": c, "diagnosis_basis": b}\<close>.\<close>

definition set_diagnosis_result :: "pyval \<Rightarrow> pyval \<Rightarrow> world \<Rightarrow> world" where
  "set_diagnosis_result c b w =
     w\<lparr>state := (state w)\<lparr>diagnosis_result :=
        [(PStr (str ''diagnosis_conclusion''), c), (PStr (str ''diagnosis_basis''), b)]\<rparr>\<rparr>"

subsection \<open>What a statement leaves alone\<close>

text \<open>
  \<open>keeps p m\<close>: whatever the statement \<open>m\<close> returns or raises, the part \<open>p\<close> of the world
  is afterwards what it was before.
\<close>

definition keeps :: "(world \<Rightarrow> 'x) \<Rightarrow> 'a action \<Rightarrow> bool" where
  "keeps p m \<longleftrightarrow> (\<forall>w. p (snd (m w)) = p w)"

named_theorems keeps_intros

lemma keeps_ret [keeps_intros]: "keeps p (ret x)"
  by (simp add: keeps_def ret_def)

lemma keeps_raise [keeps_intros]: "keeps p (raise e)"
  by (simp add: keeps_def raise_def)

lemma keeps_lift [keeps_intros]: "keeps p (lift r)"
  by (simp add: keeps_def lift_def)

lemma keeps_gets [keeps_intros]: "keeps p (gets f)"
  by (simp add: keeps_def gets_def)

lemma keeps_and_then [keeps_intros]:
  "keeps p m \<Longrightarrow> (\<And>x. keeps p (f x)) \<Longrightarrow> keeps p (and_then m f)"
  by (auto simp: keeps_def and_then_def split: prod.splits sum.splits) (metis snd_conv)+

lemma keeps_if [keeps_intros]:
  "keeps p a \<Longrightarrow> keeps p b \<Longrightarrow> keeps p (if c then a else b)"
  by simp

lemma keeps_case_option [keeps_intros]:
  "keeps p a \<Longrightarrow> (\<And>x. keeps p (b x)) \<Longrightarrow> keeps p (case v of None \<Rightarrow> a | Some x \<Rightarrow> b x)"
  by (cases v) simp_all

lemma keeps_case_sum [keeps_intros]:
  "(\<And>e. keeps p (a e)) \<Longrightarrow> (\<And>x. keeps p (b x))
     \<Longrightarrow> keeps p (case v of Inl e \<Rightarrow> a e | Inr x \<Rightarrow> b x)"
  by (cases v) simp_all

lemma keeps_modify:
  "(\<And>w. p (f w) = p w) \<Longrightarrow> keeps p (modify f)"
  by (simp add: keeps_def modify_def)

lemma keeps_input:
  "(\<And>w c. p (w\<lparr>console := c\<rparr>) = p w) \<Longrightarrow> keeps p input"
  by (simp add: keeps_def input_def split: list.splits)

lemma keeps_llm_call:
  "(\<And>w c. p (w\<lparr>llm_replies := c\<rparr>) = p w) \<Longrightarrow> keeps p llm_call"
  by (simp add: keeps_def llm_call_def split: list.splits)

lemma keeps_kickoff:
  "(\<And>w c. p (w\<lparr>crew_replies := c\<rparr>) = p w) \<Longrightarrow> (\<And>w c. p (w\<lparr>kickoffs := c\<rparr>) = p w)
     \<Longrightarrow> keeps p (kickoff c inputs)"
  by (simp add: keeps_def kickoff_def Let_def split: list.splits)

lemma keeps_uuid4:
  "(\<And>w c. p (w\<lparr>uuid_count := c\<rparr>) = p w) \<Longrightarrow> keeps p uuid4"
  by (simp add: keeps_def uuid4_def)

lemma keeps_write_file:
  "(\<And>w c. p (w\<lparr>files := c\<rparr>) = p w) \<Longrightarrow> keeps p (write_file path text)"
  by (simp add: keeps_def write_file_def)

section \<open>The text constants of the source\<close>

text \<open>
  The source writes its fixed patient record and its placeholder values in Chinese;
  they are given here by their code points. The first eight are the intake record
  (a fall from a bicycle, a painful forearm that cannot move, a forearm fracture a year
  ago, and an X-ray showing a badly healed fracture). The others are the defaults of
  the \<open>get\<close> calls: "no inquiry summary", "no supplementary inquiry", "no diagnosis
  conclusion", "no diagnosis basis", "no suggested question", "no examination item",
  "no suggested diagnostic dialogue yet", "no updated diagnosis conclusion" and "no
  updated diagnosis basis".
\<close>

definition zh_main_complain :: pystr where
  "zh_main_complain = [0x9A91, 0x8F66, 0x6454, 0x5012, 0xFF0C, 0x5C0F, 0x81C2, 0x75BC, 0x75DB, 0xFF0C, 0x65E0, 0x6CD5, 0x6D3B, 0x52A8]"

definition zh_history_of_present_illness :: pystr where
  "zh_history_of_present_illness = [0x4E00, 0x5E74, 0x524D, 0x5C0F, 0x81C2, 0x9AA8, 0x6298]"

definition zh_past_medical_history :: pystr where
  "zh_past_medical_history = [0x65E0, 0x5176, 0x4ED6, 0x75BE, 0x75C5, 0x53F2]"

definition zh_allergy_history :: pystr where
  "zh_allergy_history = [0x65E0, 0x836F, 0x7269, 0x8FC7, 0x654F, 0x53F2]"

definition zh_family_history :: pystr where
  "zh_family_history = [0x65E0, 0x5BB6, 0x65CF, 0x9057, 0x4F20, 0x75C5, 0x53F2]"

definition zh_physical_examination :: pystr where
  "zh_physical_examination = [0x5C0F, 0x81C2, 0x80BF, 0x80C0, 0xFF0C, 0x538B, 0x75DB, 0x660E, 0x663E, 0xFF0C, 0x6D3B, 0x52A8, 0x53D7, 0x9650]"

definition zh_personal_history :: pystr where
  "zh_personal_history = [0x65E0, 0x5438, 0x70DF, 0x996E, 0x9152, 0x53F2, 0xFF0C, 0x5DE5, 0x4F5C, 0x538B, 0x529B, 0x5927, 0xFF0C, 0x7F3A, 0x4E4F, 0x953B, 0x70BC]"

definition zh_xray_result :: pystr where
  "zh_xray_result = [0x663E, 0x793A, 0x5C0F, 0x81C2, 0x9AA8, 0x6298, 0x6108, 0x5408, 0x4E0D, 0x826F]"

definition zh_no_inquiry_summary :: pystr where
  "zh_no_inquiry_summary = [0x65E0, 0x95EE, 0x8BCA, 0x603B, 0x7ED3]"

definition zh_no_supplementary_inquiry :: pystr where
  "zh_no_supplementary_inquiry = [0x65E0, 0x8865, 0x5145, 0x95EE, 0x8BCA]"

definition zh_no_diagnosis_conclusion :: pystr where
  "zh_no_diagnosis_conclusion = [0x65E0, 0x8BCA, 0x65AD, 0x7ED3, 0x8BBA]"

definition zh_no_diagnosis_basis :: pystr where
  "zh_no_diagnosis_basis = [0x65E0, 0x8BCA, 0x65AD, 0x4F9D, 0x636E]"

definition zh_no_suggested_question :: pystr where
  "zh_no_suggested_question = [0x65E0, 0x5EFA, 0x8BAE, 0x95EE, 0x9898]"

definition zh_no_examination_name :: pystr where
  "zh_no_examination_name = [0x65E0, 0x68C0, 0x67E5, 0x9879, 0x76EE]"

definition zh_no_dialectics_yet :: pystr where
  "zh_no_dialectics_yet = [0x6682, 0x65E0, 0x5EFA, 0x8BAE, 0x7684, 0x8BCA, 0x65AD, 0x5BF9, 0x8BDD]"

definition zh_no_updated_conclusion :: pystr where
  "zh_no_updated_conclusion = [0x65E0, 0x66F4, 0x65B0, 0x8BCA, 0x65AD, 0x7ED3, 0x8BBA]"

definition zh_no_updated_basis :: pystr where
  "zh_no_updated_basis = [0x65E0, 0x66F4, 0x65B0, 0x8BCA, 0x65AD, 0x4F9D, 0x636E]"

section \<open>Stage 1: \<open>get_user_input\<close>\<close>

text \<open>
  The source has its \<open>input\<close> calls commented out and assigns fixed values. The audience
  loop \<open>while True\<close> takes the fixed answer \<open>"Professional".lower()\<close>, and leaves only if
  it is one of the three levels it accepts; with any other answer it would ask again
  for ever.
\<close>

definition audience_levels :: "pystr list" where
  "audience_levels = [str ''non-professional'', str ''professional'', str ''top-expert'']"

definition set_intake :: "world \<Rightarrow> world" where
  "set_intake w =
     w\<lparr>state := (state w)\<lparr>initial_inquiry := (initial_inquiry (state w))
        \<lparr>main_complain := zh_main_complain,
         history_of_present_illness := zh_history_of_present_illness,
         past_medical_history := zh_past_medical_history,
         allergy_history := zh_allergy_history,
         family_history := zh_family_history,
         physical_examination := zh_physical_examination,
         personal_history := zh_personal_history,
         auxiliary_examination := [(PStr (str ''X-ray''), PStr zh_xray_result)]\<rparr>\<rparr>\<rparr>"

definition set_audience_level :: "pystr \<Rightarrow> world \<Rightarrow> world" where
  "set_audience_level a w = w\<lparr>state := (state w)\<lparr>audience_level := a\<rparr>\<rparr>"

definition get_user_input :: "PatientState action" where
  "get_user_input =
     and_then (modify set_intake) (\<lambda>_.
     let audience = lower (str ''Professional'') in
     if audience \<in> set audience_levels
     then and_then (modify (set_audience_level audience)) (\<lambda>_. gets state)
     else raise Diverges)"

section \<open>Stage 2: \<open>inquiry_assistance\<close>\<close>

text \<open>
  The loop over the suggested supplementary questions: question \<open>i\<close> is printed, the
  operator answers, and a non-empty answer is stored under the question.
\<close>

fun ask_supplementary :: "pyval \<Rightarrow> nat \<Rightarrow> nat \<Rightarrow> unit action" where
  "ask_supplementary qs 0 i = ret ()"
| "ask_supplementary qs (Suc k) i =
     and_then (lift (py_index qs i)) (\<lambda>q.
     and_then input (\<lambda>supplementary_anwser.
     and_then
       (if supplementary_anwser \<noteq> []
        then (if hashable q
              then modify (set_supplementary_inquiry q (PStr supplementary_anwser))
              else raise TypeError)
        else ret ())
       (\<lambda>_. ask_supplementary qs k (Suc i))))"

text \<open>
  One pass of the \<open>while\<close> loop: the model is called, and \<open>inquiry_after_reply\<close> is the
  rest of the pass, from the cleaning of the response on. The handler
  \<open>except json.JSONDecodeError\<close> turns that exception into a \<open>ValueError\<close>; any other
  exception of \<open>json.loads\<close> passes it.
\<close>

definition inquiry_after_reply :: "pylib \<Rightarrow> pystr \<Rightarrow> unit action" where
  "inquiry_after_reply lib response =
     (let clean_response = clean_and_parse_json response in
     if strip clean_response = [] then raise (ValueError EmptyResponse)
     else if \<not> prefix (str ''{'') (strip clean_response) then raise (ValueError NoObjectStart)
     else case json_loads lib clean_response of
       Inl e \<Rightarrow> raise (if e = JSONDecodeError then ValueError JsonParsing else e)
     | Inr supplemetary_inquiry_dict \<Rightarrow>
         and_then (lift (py_get supplemetary_inquiry_dict (str ''inquiry_analysis'')
                      (PStr zh_no_inquiry_summary))) (\<lambda>analysis.
         and_then (modify (set_supplementary_inquiry (PStr (str ''inquiry_analysis'')) analysis)) (\<lambda>_.
         and_then (lift (py_get supplemetary_inquiry_dict (str ''supplementary_inquiries'')
                      (PStr zh_no_supplementary_inquiry))) (\<lambda>suggested.
         and_then (lift (py_len suggested)) (\<lambda>n0.
         and_then
           (if n0 > 0
            then and_then (lift (py_get supplemetary_inquiry_dict
                             (str ''supplementary_inquiries'') PNone)) (\<lambda>qs.
                 and_then (lift (py_len qs)) (\<lambda>n. ask_supplementary qs n 0))
            else ret ())
           (\<lambda>_.
         and_then (lift (py_get supplemetary_inquiry_dict (str ''inquiry_complete'')
                      (PStr []))) (\<lambda>complete.
         and_then (lift (py_lower complete)) (\<lambda>answer.
         if answer = str ''yes''
         then modify (append_section (str ''initial_inquiry''))
         else ret ()))))))))"

definition inquiry_body :: "pylib \<Rightarrow> unit action" where
  "inquiry_body lib = and_then llm_call (inquiry_after_reply lib)"

text \<open>
  The \<open>while\<close> loop with its counter \<open>iter_times\<close>; the counter it ends with is returned
  to make the number of passes visible.
\<close>

function inquiry_loop :: "pylib \<Rightarrow> nat \<Rightarrow> nat action" where
  "inquiry_loop lib iter_times w =
     (if str ''initial_inquiry'' \<notin> set (complete_sections (outline w)) \<and> iter_times < 2
      then (case inquiry_body lib w of
              (Inl e, w') \<Rightarrow> (Inl e, w')
            | (Inr u, w') \<Rightarrow> inquiry_loop lib (iter_times + 1) w')
      else (Inr iter_times, w))"
  by pat_completeness auto
termination
  by (relation "measure (\<lambda>(lib, iter_times, w). 2 - iter_times)") auto

declare inquiry_loop.simps [simp del]

definition inquiry_assistance :: "pylib \<Rightarrow> PatientState \<Rightarrow> ProcessOutline action" where
  "inquiry_assistance lib p_state =
     and_then (inquiry_loop lib 0) (\<lambda>iter_times. gets outline)"

section \<open>Stage 3: \<open>diagnosis_assistance\<close>\<close>

text \<open>The input bindings of the diagnosis crew.\<close>

definition diagnosis_inputs :: "PatientState \<Rightarrow> ProcessOutline \<Rightarrow> (pystr \<times> pyval) list" where
  "diagnosis_inputs st p_outline =
     [(str ''audience_level'', PStr (audience_level st)),
      (str ''main_complain'', PStr (main_complain (initial_inquiry st))),
      (str ''history_of_present_illness'', PStr (history_of_present_illness (initial_inquiry st))),
      (str ''past_medical_history'', PStr (past_medical_history (initial_inquiry st))),
      (str ''allergy_history'', PStr (allergy_history (initial_inquiry st))),
      (str ''family_history'', PStr (family_history (initial_inquiry st))),
      (str ''physical_examination'', PStr (physical_examination (initial_inquiry st))),
      (str ''personal_history'', PStr (personal_history (initial_inquiry st))),
      (str ''auxiliary_examination'', PDict (auxiliary_examination (initial_inquiry st))),
      (str ''supplementary_inquiries'', PDict (supplementary_inquiries p_outline))]"

text \<open>
  \<open>"; ".join(", ".join(f"{k}:{v}" for k, v in entity.items()) for entity in v)\<close>: every
  entity met while iterating must be a dict.
\<close>

fun items_of_all :: "pyval list \<Rightarrow> error + pydict list" where
  "items_of_all [] = Inr []"
| "items_of_all (entity # entities) =
     (case py_items entity of
        Inl e \<Rightarrow> Inl e
      | Inr kv \<Rightarrow> (case items_of_all entities of Inl e \<Rightarrow> Inl e | Inr kvs \<Rightarrow> Inr (kv # kvs)))"

definition str_of_possibilities :: "pylib \<Rightarrow> pyval \<Rightarrow> error + pystr" where
  "str_of_possibilities lib v =
     (case py_iter v of
        Inl e \<Rightarrow> Inl e
      | Inr entities \<Rightarrow>
          (case items_of_all entities of
             Inl e \<Rightarrow> Inl e
           | Inr kvs \<Rightarrow>
               Inr (join (str ''; '')
                     (map (\<lambda>kv. join (str '', '')
                            (map (\<lambda>(k, x). format_value lib k @ str '':'' @ format_value lib x) kv))
                        kvs))))"

text \<open>
  The loop over the auxiliary examinations the diagnosis agent suggests: examination
  \<open>i\<close> is printed, the operator answers, and a non-empty answer is stored under the
  \<open>examination_name\<close> of the suggestion.
\<close>

fun ask_examinations :: "pyval \<Rightarrow> nat \<Rightarrow> nat \<Rightarrow> unit action" where
  "ask_examinations exams 0 i = ret ()"
| "ask_examinations exams (Suc k) i =
     and_then (lift (py_index exams i)) (\<lambda>exam.
     and_then input (\<lambda>suggested_auxiliary_check_answer.
     and_then
       (if suggested_auxiliary_check_answer \<noteq> []
        then and_then (lift (py_get exam (str ''examination_name'')
                          (PStr zh_no_examination_name))) (\<lambda>name.
             if hashable name
             then modify (set_auxiliary_examination name (PStr suggested_auxiliary_check_answer))
             else raise TypeError)
        else ret ())
       (\<lambda>_. ask_examinations exams k (Suc i))))"

text \<open>
  The loop over the auxiliary checks the elimination agent suggests: here a non-empty
  answer is stored under the suggestion itself.
\<close>

fun ask_checks :: "pyval \<Rightarrow> nat \<Rightarrow> nat \<Rightarrow> unit action" where
  "ask_checks checks 0 i = ret ()"
| "ask_checks checks (Suc k) i =
     and_then (lift (py_index checks i)) (\<lambda>check.
     and_then input (\<lambda>suggested_auxiliary_check_answer.
     and_then
       (if suggested_auxiliary_check_answer \<noteq> []
        then (if hashable check
              then modify (set_auxiliary_examination check (PStr suggested_auxiliary_check_answer))
              else raise TypeError)
        else ret ())
       (\<lambda>_. ask_checks checks k (Suc i))))"

text \<open>
  The local variables the elimination loop reads and writes. \<open>dialectics_for_agent\<close>
  is the local variable \<open>suggested_diagnostic_dialectics\<close> of the source, named apart
  from the field of the process outline.
\<close>

record elimination_vars =
  diagnosis_conclusion :: pyval
  diagnosis_basis :: pyval
  list_of_other_diagnosis_possibility :: pyval
  str_of_other_diagnosis_possibility :: pystr
  dialectics_for_agent :: pyval
  ready_to_treatment_plan :: bool

definition elimination_inputs :: "pystr \<Rightarrow> elimination_vars \<Rightarrow> pydict \<Rightarrow> (pystr \<times> pyval) list" where
  "elimination_inputs audience v examinations =
     [(str ''diagnosis_conclusion'', diagnosis_conclusion v),
      (str ''diagnosis_basis'', diagnosis_basis v),
      (str ''other_diagnosis_possibility'', PStr (str_of_other_diagnosis_possibility v)),
      (str ''suggested_question_and_answer'', dialectics_for_agent v),
      (str ''suggested_auxiliary_check_and_result'', PDict examinations),
      (str ''audience_level'', PStr audience)]"

text \<open>
  One pass of the elimination loop after the crew has answered with \<open>raw\<close>: the reply is
  parsed, the conclusion and the basis are taken from it (the first statements of both
  branches of the source), and the pass decides whether the loop is over.
\<close>

definition elimination_step :: "pylib \<Rightarrow> elimination_vars \<Rightarrow> pystr \<Rightarrow> elimination_vars action" where
  "elimination_step lib v raw =
     (case json_loads lib raw of
        Inl e \<Rightarrow> raise e
      | Inr parsed_elimination_result \<Rightarrow>
     and_then (lift (py_get parsed_elimination_result (str ''further_inquiries_needed'')
                  (PStr (str ''unknown'')))) (\<lambda>further.
     and_then (lift (py_lower further)) (\<lambda>further_lower.
     and_then (lift (py_get parsed_elimination_result (str ''diagnosis_conclusion'')
                  (PStr zh_no_updated_conclusion))) (\<lambda>conclusion.
     and_then (lift (py_get parsed_elimination_result (str ''diagnosis_basis'')
                  (PStr zh_no_updated_basis))) (\<lambda>basis.
     let v1 = v\<lparr>diagnosis_conclusion := conclusion, diagnosis_basis := basis\<rparr> in
     if further_lower = str ''no''
     then ret (v1\<lparr>ready_to_treatment_plan := True\<rparr>)
     else
       and_then (lift (py_get parsed_elimination_result (str ''other_diagnosis_possibility'')
                    (PList []))) (\<lambda>others.
       let v2 = v1\<lparr>list_of_other_diagnosis_possibility := others\<rparr> in
       and_then (lift (py_len others)) (\<lambda>n.
       if n = 0
       then ret (v2\<lparr>ready_to_treatment_plan := True\<rparr>)
       else
         and_then (lift (index_all n 0 others)) (\<lambda>_.
         and_then (lift (str_of_possibilities lib others)) (\<lambda>s.
         let v3 = v2\<lparr>str_of_other_diagnosis_possibility := s\<rparr> in
         and_then (lift (py_get parsed_elimination_result (str ''suggested_auxiliary_check'')
                      (PList []))) (\<lambda>checks.
         and_then (lift (py_len checks)) (\<lambda>m.
         and_then
           (if m = 0
            then ret (v3\<lparr>ready_to_treatment_plan := True\<rparr>)
            else and_then (ask_checks checks m 0) (\<lambda>_. ret v3))
           (\<lambda>v4.
         and_then (lift (py_get parsed_elimination_result (str ''suggested_question'')
                      (PStr zh_no_suggested_question))) (\<lambda>suggested_diagnostic_question.
         and_then input (\<lambda>answer_suggested_question.
         if answer_suggested_question \<noteq> []
         then (if hashable suggested_diagnostic_question
               then and_then
                      (modify (append_dialectics
                         [(suggested_diagnostic_question, PStr answer_suggested_question)]))
                      (\<lambda>_. ret (v4\<lparr>dialectics_for_agent :=
                         PDict [(suggested_diagnostic_question, PStr answer_suggested_question)]\<rparr>))
               else raise TypeError)
         else ret (v4\<lparr>dialectics_for_agent := PDict []\<rparr>)))))))))))))))"

lemmas world_updates =
  outline_def update_outline_def append_section_def set_supplementary_inquiry_def
  set_auxiliary_examination_def append_dialectics_def set_diagnosis_result_def
  set_intake_def set_audience_level_def

lemma keeps_ask_checks:
  assumes "\<And>w c. p (w\<lparr>console := c\<rparr>) = p w"
    and "\<And>w k v. p (set_auxiliary_examination k v w) = p w"
  shows "keeps p (ask_checks checks n i)"
  by (induction n arbitrary: i) (auto intro!: keeps_intros keeps_input keeps_modify assms)

lemma keeps_elimination_step:
  assumes "\<And>w c. p (w\<lparr>console := c\<rparr>) = p w"
    and "\<And>w k v. p (set_auxiliary_examination k v w) = p w"
    and "\<And>w d. p (append_dialectics d w) = p w"
  shows "keeps p (elimination_step lib v raw)"
  unfolding elimination_step_def Let_def
  by (intro keeps_intros keeps_input keeps_modify keeps_ask_checks assms)

text \<open>
  The loop \<open>while ready_to_treatment_plan != True\<close>. Every pass waits for one reply of
  the elimination crew, so a run of the loop is determined by the replies it is given;
  when they run out before a pass has set the flag, the run ends with
  \<open>ExternalFailure\<close>.
\<close>

function elimination_loop :: "pylib \<Rightarrow> pystr \<Rightarrow> elimination_vars \<Rightarrow> elimination_vars action" where
  "elimination_loop lib audience v w =
     (if ready_to_treatment_plan v \<noteq> True
      then (case kickoff PossibilitiesEliminationCrew
                   (elimination_inputs audience v (supplementary_auxiliary_examinations (outline w))) w of
              (Inl e, w1) \<Rightarrow> (Inl e, w1)
            | (Inr raw, w1) \<Rightarrow>
                (case elimination_step lib v raw w1 of
                   (Inl e, w2) \<Rightarrow> (Inl e, w2)
                 | (Inr v', w2) \<Rightarrow> elimination_loop lib audience v' w2))
      else (Inr v, w))"
  by pat_completeness auto
termination
proof (relation "measure (\<lambda>(lib, audience, v, w). length (crew_replies w))")
  show "wf (measure (\<lambda>(lib, audience, v, w). length (crew_replies w)))"
    by simp
next
  fix lib :: pylib and audience :: pystr and v v' :: elimination_vars and w w1 w2 :: world
    and x1 :: "error + pystr" and raw :: pystr and x2 :: "error + elimination_vars"
  assume k: "(x1, w1) = kickoff PossibilitiesEliminationCrew
                (elimination_inputs audience v (supplementary_auxiliary_examinations (outline w))) w"
    and r: "x1 = Inr raw"
    and s: "(x2, w2) = elimination_step lib v raw w1"
  from k r have "length (crew_replies w1) < length (crew_replies w)"
    by (auto simp: kickoff_def Let_def split: list.splits)
  moreover have "keeps crew_replies (elimination_step lib v raw)"
    by (rule keeps_elimination_step) (simp_all add: world_updates)
  then have "crew_replies w2 = crew_replies w1"
    using s by (metis keeps_def snd_conv)
  ultimately show "((lib, audience, v', w2), (lib, audience, v, w))
      \<in> measure (\<lambda>(lib, audience, v, w). length (crew_replies w))"
    by simp
qed

declare elimination_loop.simps [simp del]

text \<open>
  The stage. With \<open>q\<close> the operator types the conclusion and the basis; otherwise the
  diagnosis crew is asked and its reply is parsed by an unguarded \<open>json.loads\<close>.
  \<open>diagnosis_after_reply\<close> is the rest of that branch: the operator is asked the
  suggested question and the suggested examinations, the elimination loop runs if the
  reply lists other possibilities, and the result is stored.
\<close>

definition diagnosis_after_reply :: "pylib \<Rightarrow> pystr \<Rightarrow> pyval \<Rightarrow> pydict action" where
  "diagnosis_after_reply lib audience parsed_result =
     and_then (lift (py_get parsed_result (str ''diagnosis_conclusion'')
                  (PStr zh_no_diagnosis_conclusion))) (\<lambda>conclusion.
     and_then (lift (py_get parsed_result (str ''diagnosis_basis'')
                  (PStr zh_no_diagnosis_basis))) (\<lambda>basis.
     and_then (lift (py_get parsed_result (str ''other_diagnosis_possibility'')
                  (PList []))) (\<lambda>others.
     and_then (lift (py_len others)) (\<lambda>n.
     and_then (lift (index_all n 0 others)) (\<lambda>_.
     and_then (lift (str_of_possibilities lib others)) (\<lambda>s.
     and_then (lift (py_get parsed_result (str ''suggested_question'')
                  (PStr zh_no_suggested_question))) (\<lambda>suggested_question.
     and_then input (\<lambda>answer_suggested_question.
     and_then
       (if answer_suggested_question \<noteq> []
        then (if hashable suggested_question
              then modify (append_dialectics
                     [(suggested_question, PStr answer_suggested_question)])
              else raise TypeError)
        else ret ())
       (\<lambda>_.
     and_then (lift (py_get parsed_result (str ''suggested_auxiliary_examinations'')
                  (PList []))) (\<lambda>exams.
     and_then (lift (py_len exams)) (\<lambda>m.
     and_then (if m \<noteq> 0 then ask_examinations exams m 0 else ret ()) (\<lambda>_.
     and_then (gets (\<lambda>w. suggested_diagnostic_dialectics (outline w))) (\<lambda>recorded.
     let v = \<lparr>diagnosis_conclusion = conclusion,
              diagnosis_basis = basis,
              list_of_other_diagnosis_possibility = others,
              str_of_other_diagnosis_possibility = s,
              dialectics_for_agent =
                (if length recorded > 0 then PDict (last recorded)
                 else PStr zh_no_dialectics_yet),
              ready_to_treatment_plan = False\<rparr> in
     and_then (if n > 0 then elimination_loop lib audience v else ret v) (\<lambda>final.
     and_then (modify (set_diagnosis_result (diagnosis_conclusion final)
                  (diagnosis_basis final))) (\<lambda>_.
     and_then (modify (append_section (str ''diagnosis''))) (\<lambda>_.
     gets (\<lambda>w. diagnosis_result (state w))))))))))))))))))"

definition diagnosis_assistance :: "pylib \<Rightarrow> ProcessOutline \<Rightarrow> pydict action" where
  "diagnosis_assistance lib p_outline =
     and_then input (\<lambda>skip.
     if lower skip = str ''q''
     then
       and_then input (\<lambda>final_diagnosis_conclusion.
       and_then input (\<lambda>final_diagnosis_basis.
       and_then (modify (set_diagnosis_result (PStr final_diagnosis_conclusion)
                    (PStr final_diagnosis_basis))) (\<lambda>_.
       and_then (modify (append_section (str ''diagnosis''))) (\<lambda>_.
       gets (\<lambda>w. diagnosis_result (state w))))))
     else
       and_then (gets state) (\<lambda>st.
       and_then (kickoff DiagnosisCrew (diagnosis_inputs st p_outline)) (\<lambda>raw.
       case json_loads lib raw of
         Inl e \<Rightarrow> raise e
       | Inr parsed_result \<Rightarrow> diagnosis_after_reply lib (audience_level st) parsed_result)))"

section \<open>Stage 4: \<open>treatment_plan_creation\<close>\<close>

text \<open>
  The input bindings of the treatment-plan crew. The source reads
  \<open>supplementary_auxiliary_examinations\<close> of the process outline into both local
  variables \<open>supplementary_auxiliary_examinations\<close> and \<open>suggested_diagnostic_dialectics\<close>.
\<close>

definition treatment_plan_inputs :: "PatientState \<Rightarrow> pydict \<Rightarrow> (pystr \<times> pyval) list" where
  "treatment_plan_inputs st p_diagnosis_result =
     [(str ''audience_level'', PStr (audience_level st)),
      (str ''diagnosis_conclusion'',
         dict_get_default p_diagnosis_result (str ''diagnosis_conclusion'')
           (PStr zh_no_diagnosis_conclusion)),
      (str ''diagnosis_basis'',
         dict_get_default p_diagnosis_result (str ''diagnosis_basis'')
           (PStr zh_no_diagnosis_basis)),
      (str ''supplementary_auxiliary_examinations'',
         PDict (supplementary_auxiliary_examinations (process_outline st))),
      (str ''suggested_diagnostic_dialectics'',
         PDict (supplementary_auxiliary_examinations (process_outline st))),
      (str ''history_of_present_illness'', PStr (history_of_present_illness (initial_inquiry st))),
      (str ''past_medical_history'', PStr (past_medical_history (initial_inquiry st))),
      (str ''allergy_history'', PStr (allergy_history (initial_inquiry st))),
      (str ''family_history'', PStr (family_history (initial_inquiry st))),
      (str ''personal_history'', PStr (personal_history (initial_inquiry st)))]"

definition treatment_plan_path :: "pystr \<Rightarrow> pystr" where
  "treatment_plan_path treatment_plan_filename =
     str ''treatment_plans/treatment_plan_'' @ treatment_plan_filename @ str ''.md''"

text \<open>\<open>self.state.treatment_plan["manual_treatment_plan"] = treatment_plan\<close>.\<close>

definition set_manual_treatment_plan :: "pystr \<Rightarrow> world \<Rightarrow> world" where
  "set_manual_treatment_plan plan w =
     w\<lparr>state := (state w)\<lparr>treatment_plan :=
        dict_set (treatment_plan (state w)) (PStr (str ''manual_treatment_plan'')) (PStr plan)\<rparr>\<rparr>"

text \<open>\<open>self.state.treatment_plan.update(dict_plan_result)\<close>.\<close>

definition update_treatment_plan :: "pyval \<Rightarrow> unit action" where
  "update_treatment_plan v w =
     (case dict_update (treatment_plan (state w)) v of
        (err, d) \<Rightarrow>
          ((case err of None \<Rightarrow> Inr () | Some e \<Rightarrow> Inl e),
           w\<lparr>state := (state w)\<lparr>treatment_plan := d\<rparr>\<rparr>))"

text \<open>
  The stage. The identifier of the file is drawn first. With \<open>q\<close> the operator types
  the plan, which is stored and written; otherwise the treatment-plan crew is asked,
  its reply is parsed under a handler \<open>except json.JSONDecodeError\<close> that raises
  \<open>ValueError\<close>, the parsed value is merged into the stored plan and the raw reply is
  written. The section is marked complete after the file is written.
\<close>

definition treatment_plan_creation :: "pylib \<Rightarrow> pydict \<Rightarrow> ProcessOutline action" where
  "treatment_plan_creation lib p_diagnosis_result =
     and_then uuid4 (\<lambda>treatment_plan_filename.
     and_then input (\<lambda>skip.
     and_then
       (if lower skip = str ''q''
        then
          and_then input (\<lambda>plan.
          and_then (modify (set_manual_treatment_plan plan)) (\<lambda>_.
          write_file (treatment_plan_path treatment_plan_filename) plan))
        else
          and_then (gets state) (\<lambda>st.
          and_then (kickoff TreatmentPlanCrew (treatment_plan_inputs st p_diagnosis_result)) (\<lambda>raw.
          case json_loads lib raw of
            Inl e \<Rightarrow> raise (if e = JSONDecodeError then ValueError JsonParsing else e)
          | Inr dict_plan_result \<Rightarrow>
              and_then (update_treatment_plan dict_plan_result) (\<lambda>_.
              write_file (treatment_plan_path treatment_plan_filename) raw))))
       (\<lambda>_.
     and_then (modify (append_section (str ''treatment plan''))) (\<lambda>_.
     gets outline))))"

section \<open>Stage 5: \<open>multiagents_report\<close>\<close>

definition report_inputs :: "pylib \<Rightarrow> PatientState \<Rightarrow> ProcessOutline \<Rightarrow> (pystr \<times> pyval) list" where
  "report_inputs lib st p_outline =
     [(str ''audience_level'', PStr (audience_level st)),
      (str ''history_of_present_illness'', PStr (history_of_present_illness (initial_inquiry st))),
      (str ''past_medical_history'', PStr (past_medical_history (initial_inquiry st))),
      (str ''allergy_history'', PStr (allergy_history (initial_inquiry st))),
      (str ''family_history'', PStr (family_history (initial_inquiry st))),
      (str ''personal_history'', PStr (personal_history (initial_inquiry st))),
      (str ''physical_examination'', PStr (physical_examination (initial_inquiry st))),
      (str ''auxiliary_examination'', PDict (auxiliary_examination (initial_inquiry st))),
      (str ''supplementary_inquiries'', PDict (supplementary_inquiries p_outline)),
      (str ''suggested_diagnostic_dialectics'',
         PStr (json_dumps lib (PList (map PDict (suggested_diagnostic_dialectics p_outline))))),
      (str ''supplementary_auxiliary_examinations'',
         PDict (supplementary_auxiliary_examinations p_outline)),
      (str ''complete_sections'',
         PStr (json_dumps lib (PList (map PStr (complete_sections p_outline))))),
      (str ''diagnosis_result'', PDict (diagnosis_result st)),
      (str ''treatment_plan'', PDict (treatment_plan st))]"

definition report_path :: "pystr \<Rightarrow> pystr" where
  "report_path report_filename = str ''summary_reports/report_'' @ report_filename @ str ''.md''"

text \<open>The reply of the report crew is written to the report file as it is.\<close>

definition multiagents_report :: "pylib \<Rightarrow> ProcessOutline \<Rightarrow> pystr action" where
  "multiagents_report lib p_outline =
     and_then (gets state) (\<lambda>st.
     and_then (kickoff MultiAgentsReportCrew (report_inputs lib st p_outline)) (\<lambda>raw.
     and_then uuid4 (\<lambda>report_filename.
     and_then (write_file (report_path report_filename) raw) (\<lambda>_.
     ret (str ''Summary of multi-agents cooperating to diagonse is done'')))))"

section \<open>The flow\<close>

text \<open>
  The flow runs the five stages in the order of their \<open>@start\<close> and \<open>@listen\<close>
  decorators, each stage receiving what the one before returned; an exception ends the
  run. \<open>kickoff_flow\<close> is the function \<open>kickoff\<close> of the module: a new \<open>RehabFlow\<close>, with
  the default state, is run.
\<close>

definition rehab_flow :: "pylib \<Rightarrow> pystr action" where
  "rehab_flow lib =
     and_then get_user_input (\<lambda>p_state.
     and_then (inquiry_assistance lib p_state) (\<lambda>p_outline.
     and_then (diagnosis_assistance lib p_outline) (\<lambda>p_diagnosis_result.
     and_then (treatment_plan_creation lib p_diagnosis_result) (\<lambda>p_outline'.
     multiagents_report lib p_outline'))))"

definition kickoff_flow :: "pylib \<Rightarrow> pystr action" where
  "kickoff_flow lib w = rehab_flow lib (w\<lparr>state := default_state\<rparr>)"

section \<open>Properties of the fence stripping\<close>

lemma fence_eq: "fence = [96, 96, 96]"
  by (simp add: fence_def str_def)

lemma json_tag_eq: "json_tag = [106, 115, 111, 110]"
  by (simp add: json_tag_def str_def)

lemma backtick_not_space: "\<not> is_space 96"
  by (simp add: is_space_def)

lemma closes_iff: "closes x \<longleftrightarrow> prefix fence (dropWhile is_space x)"
proof (induction x)
  case Nil
  show ?case by (simp add: fence_eq)
next
  case (Cons c cs)
  show ?case
  proof (cases "is_space c")
    case True
    then have "c \<noteq> 96" using backtick_not_space by auto
    then have "\<not> prefix fence (c # cs)" by (simp add: fence_eq)
    with True Cons show ?thesis by simp
  next
    case False
    then show ?thesis by simp
  qed
qed

lemma has_fence_iff: "has_fence s \<longleftrightarrow> (\<exists>a b. s = a @ fence @ b)"
proof (induction s)
  case Nil
  show ?case by (simp add: fence_eq)
next
  case (Cons c cs)
  show ?case
  proof
    assume "has_fence (c # cs)"
    then consider "prefix fence (c # cs)" | "has_fence cs" by auto
    then show "\<exists>a b. c # cs = a @ fence @ b"
    proof cases
      case 1
      then obtain b where "c # cs = fence @ b" by (auto simp: prefix_def)
      then have "c # cs = [] @ fence @ b" by simp
      then show ?thesis by blast
    next
      case 2
      with Cons obtain a b where "cs = a @ fence @ b" by auto
      then have "c # cs = (c # a) @ fence @ b" by simp
      then show ?thesis by blast
    qed
  next
    assume "\<exists>a b. c # cs = a @ fence @ b"
    then obtain a b where ab: "c # cs = a @ fence @ b" by auto
    show "has_fence (c # cs)"
    proof (cases a)
      case Nil
      with ab have "prefix fence (c # cs)" by (simp add: prefix_def)
      then show ?thesis by simp
    next
      case (Cons a1 a')
      with ab have "cs = a' @ fence @ b" by simp
      with Cons.IH have "has_fence cs" by blast
      then show ?thesis by simp
    qed
  qed
qed

lemma no_fence_no_match: "\<not> has_fence s \<Longrightarrow> re_search s = None"
  by (induction s) (auto simp: match_here_def fence_eq)

lemma after_ws_skip:
  "\<forall>c \<in> set w. is_space c \<Longrightarrow> after_ws u = Some g \<Longrightarrow> after_ws (w @ u) = Some g"
  by (induction w) auto

lemma after_ws_nonspace: "u \<noteq> [] \<Longrightarrow> \<not> is_space (hd u) \<Longrightarrow> after_ws u = group1 u"
  by (cases u) auto

lemma group1_least:
  "closes b \<Longrightarrow> \<forall>k < length a. \<not> closes (drop k a @ b) \<Longrightarrow> group1 (a @ b) = Some a"
proof (induction a)
  case Nil
  then show ?case by (cases b) auto
next
  case (Cons c a)
  from Cons.prems(2) have "\<not> closes (drop 0 (c # a) @ b)" by blast
  then have c0: "\<not> closes (c # a @ b)" by simp
  have "\<forall>k < length a. \<not> closes (drop k a @ b)"
  proof (intro allI impI)
    fix k assume "k < length a"
    then have "Suc k < length (c # a)" by simp
    with Cons.prems(2) have "\<not> closes (drop (Suc k) (c # a) @ b)" by blast
    then show "\<not> closes (drop k a @ b)" by simp
  qed
  with Cons.IH Cons.prems(1) have "group1 (a @ b) = Some a" by blast
  with c0 show ?case by simp
qed

lemma strip_decomp:
  obtains lead trail where "s = lead @ strip s @ trail"
    and "\<forall>c \<in> set lead. is_space c" and "\<forall>c \<in> set trail. is_space c"
    and "strip s \<noteq> [] \<longrightarrow> \<not> is_space (hd (strip s)) \<and> \<not> is_space (last (strip s))"
proof -
  define core where "core = dropWhile is_space s"
  define lead where "lead = takeWhile is_space s"
  define trail where "trail = rev (takeWhile is_space (rev core))"
  have body: "strip s = rev (dropWhile is_space (rev core))"
    by (simp add: strip_def core_def)
  have "rev (takeWhile is_space (rev core) @ dropWhile is_space (rev core)) = core"
    by (simp only: takeWhile_dropWhile_id rev_rev_ident)
  then have core: "core = strip s @ trail"
    unfolding rev_append body trail_def by (rule sym)
  have "s = lead @ core"
    unfolding lead_def core_def by simp
  then have s: "s = lead @ strip s @ trail"
    using core by simp
  have l: "\<forall>c \<in> set lead. is_space c"
    by (auto simp: lead_def dest: set_takeWhileD)
  have t: "\<forall>c \<in> set trail. is_space c"
    by (auto simp: trail_def dest: set_takeWhileD)
  have e: "\<not> is_space (hd (strip s)) \<and> \<not> is_space (last (strip s))" if ne: "strip s \<noteq> []"
  proof
    from ne core have "core \<noteq> []" by auto
    then have "\<not> is_space (hd core)"
      unfolding core_def by (rule hd_dropWhile)
    moreover from ne core have "hd core = hd (strip s)" by (cases "strip s") auto
    ultimately show "\<not> is_space (hd (strip s))" by simp
    from ne body have d: "dropWhile is_space (rev core) \<noteq> []" by simp
    then have "\<not> is_space (hd (dropWhile is_space (rev core)))" by (rule hd_dropWhile)
    moreover have "last (strip s) = hd (dropWhile is_space (rev core))"
      using d by (simp add: body last_rev)
    ultimately show "\<not> is_space (last (strip s))" by simp
  qed
  from e have "strip s \<noteq> [] \<longrightarrow> \<not> is_space (hd (strip s)) \<and> \<not> is_space (last (strip s))"
    by blast
  with s l t show thesis by (rule that)
qed

lemma closes_ws_fence: "\<forall>c \<in> set t. is_space c \<Longrightarrow> closes (t @ fence)"
proof -
  assume ws: "\<forall>c \<in> set t. is_space c"
  then have "dropWhile is_space (t @ fence) = dropWhile is_space fence"
    by (simp add: dropWhile_append2)
  also have "\<dots> = fence" using backtick_not_space by (simp add: fence_eq)
  finally show ?thesis by (simp add: closes_iff)
qed

lemma group1_body:
  assumes ne: "body \<noteq> []" and lst: "\<not> is_space (last body)"
    and ws: "\<forall>c \<in> set t. is_space c"
    and nf: "\<not> has_fence body"
    and e: "t = [] \<longrightarrow> last body \<noteq> 96"
  shows "group1 (body @ t @ fence) = Some body"
proof (rule group1_least)
  show "closes (t @ fence)" using ws by (rule closes_ws_fence)
  show "\<forall>k < length body. \<not> closes (drop k body @ t @ fence)"
  proof (intro allI impI notI)
    fix k assume k: "k < length body" and c: "closes (drop k body @ t @ fence)"
    define s where "s = drop k body"
    define y where "y = dropWhile is_space s"
    from k have sne: "s \<noteq> []" by (simp add: s_def)
    from k have ls: "last s = last body" by (simp add: s_def)
    from sne have "last s \<in> set s" by simp
    moreover from ls lst have "\<not> is_space (last s)" by simp
    ultimately have split: "dropWhile is_space (s @ t @ fence) = y @ t @ fence" and yne: "y \<noteq> []"
      by (auto simp: y_def dropWhile_append1 dropWhile_eq_Nil_conv)
    from c have pf: "prefix fence (y @ t @ fence)"
      by (simp add: closes_iff s_def [symmetric] split)
    have "body = (take k body @ takeWhile is_space s) @ y"
      by (simp add: s_def y_def)
    then obtain p where bp: "body = p @ y" by blast
    with yne have ly: "last body = last y" by simp
    from yne consider a where "y = [a]" | a b where "y = [a, b]" | a b c r where "y = a # b # c # r"
      by (cases y rule: list.exhaust [case_names Nil Cons])
         (auto, metis list.exhaust)
    then show False
    proof cases
      case 1
      with pf have a: "a = 96" and r: "prefix [96, 96] (t @ fence)" by (auto simp: fence_eq)
      show False
      proof (cases t)
        case Nil
        with e ly 1 a show False by simp
      next
        case (Cons t1 t')
        with r have "t1 = 96" by simp
        with Cons ws backtick_not_space show False by auto
      qed
    next
      case 2
      with pf have b: "b = 96" and r: "prefix [96] (t @ fence)" by (auto simp: fence_eq)
      show False
      proof (cases t)
        case Nil
        with e ly 2 b show False by simp
      next
        case (Cons t1 t')
        with r have "t1 = 96" by simp
        with Cons ws backtick_not_space show False by auto
      qed
    next
      case 3
      with pf have "y = fence @ r" by (auto simp: fence_eq)
      with bp have "body = p @ fence @ r" by simp
      then have "has_fence body" unfolding has_fence_iff by blast
      with nf show False by simp
    qed
  qed
qed

lemma prefix_append_foreign:
  assumes "prefix p (c @ u)" and "u \<noteq> []" and "hd u \<notin> set p"
  shows "prefix p c"
proof -
  from assms(1) have "prefix p c \<or> (\<exists>us. p = c @ us \<and> prefix us u)"
    by (simp add: prefix_append)
  then show ?thesis
  proof (elim disjE exE conjE)
    fix us assume p: "p = c @ us" and pu: "prefix us u"
    show "prefix p c"
    proof (cases us)
      case Nil
      with p show ?thesis by simp
    next
      case (Cons a us')
      with pu assms(2) have "hd u = a" by (cases u) auto
      with p Cons have "hd u \<in> set p" by simp
      with assms(3) show ?thesis by simp
    qed
  qed
qed

lemma after_ws_wrapped:
  assumes pre: "\<forall>c \<in> set pre. is_space c" and post: "\<forall>c \<in> set post. is_space c"
    and nf: "\<not> has_fence content"
    and e: "post = [] \<longrightarrow> content = [] \<or> last content \<noteq> 96"
  shows "after_ws (pre @ content @ post @ fence) = Some (strip content)"
proof -
  obtain lead trail where c: "content = lead @ strip content @ trail"
    and l: "\<forall>c \<in> set lead. is_space c" and t: "\<forall>c \<in> set trail. is_space c"
    and hl: "strip content \<noteq> [] \<longrightarrow>
        \<not> is_space (hd (strip content)) \<and> \<not> is_space (last (strip content))"
    using strip_decomp [of content] by blast
  define body where "body = strip content"
  show ?thesis
  proof (cases "body = []")
    case True
    have "after_ws fence = Some []" using backtick_not_space by (simp add: fence_eq)
    moreover have "\<forall>c \<in> set (pre @ lead @ trail @ post). is_space c"
      using pre l t post by auto
    ultimately have "after_ws ((pre @ lead @ trail @ post) @ fence) = Some []"
      by (rule after_ws_skip [rotated])
    moreover have "pre @ content @ post @ fence = (pre @ lead @ trail @ post) @ fence"
      using c True by (simp add: body_def)
    ultimately show ?thesis using True by (simp add: body_def)
  next
    case False
    have nfb: "\<not> has_fence body"
    proof
      assume "has_fence body"
      then obtain a b where "body = a @ fence @ b" unfolding has_fence_iff by blast
      with c have "content = (lead @ a) @ fence @ (b @ trail)" by (simp add: body_def)
      then have "has_fence content" unfolding has_fence_iff by blast
      with nf show False by simp
    qed
    have eb: "trail @ post = [] \<longrightarrow> last body \<noteq> 96"
    proof
      assume tp: "trail @ post = []"
      with c have "content = lead @ body" by (simp add: body_def)
      with False have "content \<noteq> []" "last content = last body" by auto
      with e tp show "last body \<noteq> 96" by simp
    qed
    from False hl have h: "\<not> is_space (hd body)" "\<not> is_space (last body)"
      by (auto simp: body_def)
    have "group1 (body @ (trail @ post) @ fence) = Some body"
      using False h(2) _ nfb eb by (rule group1_body) (use t post in auto)
    moreover have "after_ws (body @ (trail @ post) @ fence) = group1 (body @ (trail @ post) @ fence)"
      using False h(1) by (intro after_ws_nonspace) auto
    ultimately have "after_ws (body @ (trail @ post) @ fence) = Some body" by simp
    moreover have "\<forall>c \<in> set (pre @ lead). is_space c" using pre l by auto
    ultimately have "after_ws ((pre @ lead) @ body @ (trail @ post) @ fence) = Some body"
      by (rule after_ws_skip [rotated])
    moreover have "pre @ content @ post @ fence = (pre @ lead) @ body @ (trail @ post) @ fence"
      using c by (simp add: body_def)
    ultimately show ?thesis by (metis body_def)
  qed
qed

lemmas fence_eval =
  str_def is_space_def strip_def fence_def json_tag_def after_fence_def match_here_def
  clean_and_parse_json_def fence_wrap_def

text \<open>
  Claim C6, as the code has it. Wrapping a content in a code fence (the opening fence,
  the tag \<open>json\<close> or none, white space or none, the content, white space or none, the
  closing fence) and stripping gives what stripping the content itself gives, namely
  the content without the white space around it, so the text handed to \<open>json.loads\<close> is
  the same, whenever the content has no three backticks in a row, the wrapped content
  does not end with a backtick right before the closing fence, and a content put right
  after an untagged opening fence does not itself begin with \<open>json\<close>.
\<close>

theorem fence_wrap_then_strip:
  assumes tag: "tag = [] \<or> tag = json_tag"
    and pre: "\<forall>c \<in> set pre. is_space c" and post: "\<forall>c \<in> set post. is_space c"
    and nf: "\<not> has_fence content"
    and e: "post = [] \<longrightarrow> content = [] \<or> last content \<noteq> 96"
    and j: "tag = [] \<and> pre = [] \<longrightarrow> \<not> prefix json_tag content"
  shows "clean_and_parse_json (fence_wrap tag pre post content) = clean_and_parse_json content
       \<and> clean_and_parse_json content = strip content"
proof -
  have inner: "after_ws (pre @ content @ post @ fence) = Some (strip content)"
    using pre post nf e by (rule after_ws_wrapped)
  have af: "after_fence (tag @ pre @ content @ post @ fence) = Some (strip content)"
  proof (cases "tag = json_tag")
    case True
    then show ?thesis using inner by (simp add: after_fence_def json_tag_eq)
  next
    case False
    with tag have t0: "tag = []" by simp
    have "\<not> prefix json_tag (pre @ content @ post @ fence)"
    proof (cases pre)
      case Nil
      have "\<not> prefix json_tag (content @ post @ fence)"
      proof
        assume p: "prefix json_tag (content @ post @ fence)"
        have "hd (post @ fence) \<notin> set json_tag"
        proof (cases post)
          case Nil then show ?thesis by (simp add: fence_eq json_tag_eq)
        next
          case (Cons p1 ps)
          with post have "is_space p1" by simp
          then show ?thesis using Cons by (auto simp: json_tag_eq is_space_def)
        qed
        with p have "prefix json_tag content"
          by (intro prefix_append_foreign [of json_tag content "post @ fence"]) (auto simp: fence_eq)
        with j t0 Nil show False by simp
      qed
      with Nil show ?thesis by simp
    next
      case (Cons p1 ps)
      with pre have "is_space p1" by simp
      then have "p1 \<noteq> 106" by (auto simp: is_space_def)
      with Cons show ?thesis by (simp add: json_tag_eq)
    qed
    with t0 inner show ?thesis by (simp add: after_fence_def)
  qed
  then have "match_here (fence_wrap tag pre post content) = Some (strip content)"
    by (simp add: match_here_def fence_wrap_def fence_eq)
  then have "re_search (fence_wrap tag pre post content) = Some (strip content)"
    by (simp add: fence_wrap_def fence_eq)
  then have w: "clean_and_parse_json (fence_wrap tag pre post content) = strip content"
    by (simp add: clean_and_parse_json_def)
  have d: "clean_and_parse_json content = strip content"
    using nf by (simp add: clean_and_parse_json_def no_fence_no_match)
  from w d show ?thesis by simp
qed

text \<open>
  The theorem at the usual reply of a model: an object in a fence tagged \<open>json\<close>, a
  line break after the opening fence and one before the closing fence.
\<close>

theorem fence_wrap_then_strip_witness:
  "is_space 0xA
   \<and> \<not> has_fence (str ''{\"a\": 1}'')
   \<and> last (str ''{\"a\": 1}'') \<noteq> 96
   \<and> clean_and_parse_json (fence_wrap json_tag [0xA] [0xA] (str ''{\"a\": 1}''))
       = clean_and_parse_json (str ''{\"a\": 1}'')
   \<and> clean_and_parse_json (str ''{\"a\": 1}'') = str ''{\"a\": 1}''"
proof -
  have ws: "\<forall>c \<in> set [0xA]. is_space c"
    by (simp add: is_space_def)
  have nf: "\<not> has_fence (str ''{\"a\": 1}'')"
    by (simp add: fence_eval)
  have e: "[0xA] = [] \<longrightarrow> str ''{\"a\": 1}'' = [] \<or> last (str ''{\"a\": 1}'') \<noteq> 96"
    by simp
  have j: "json_tag = [] \<and> [0xA] = [] \<longrightarrow> \<not> prefix json_tag (str ''{\"a\": 1}'')"
    by simp
  have l: "last (str ''{\"a\": 1}'') \<noteq> 96"
    by (simp add: str_def)
  have s: "strip (str ''{\"a\": 1}'') = str ''{\"a\": 1}''"
    by (simp add: fence_eval)
  from fence_wrap_then_strip [of json_tag "[0xA]" "[0xA]" "str ''{\"a\": 1}''", OF _ ws ws nf e j]
  show ?thesis using ws nf l s by simp
qed

text \<open>
  Claim C6 as stated, for every content, fails: an object whose string holds a fence.
  Stripped directly it is returned whole (one fence alone matches nothing); wrapped and
  stripped, the group ends at the fence inside the string.
\<close>

theorem fence_wrap_then_strip_counterexample:
  "clean_and_parse_json (fence_wrap json_tag [0xA] [0xA] (str ''{\"a\": \"```\"}''))
     = str ''{\"a\": \"''
   \<and> clean_and_parse_json (str ''{\"a\": \"```\"}'') = str ''{\"a\": \"```\"}''
   \<and> clean_and_parse_json (fence_wrap json_tag [0xA] [0xA] (str ''{\"a\": \"```\"}''))
     \<noteq> clean_and_parse_json (str ''{\"a\": \"```\"}'')"
  by (simp add: fence_eval)

section \<open>Sample libraries and worlds\<close>

text \<open>
  The concrete inputs the theorems below are run on: a \<open>json.loads\<close> that knows the
  texts of a table and rejects every other text, a world with the default state,
  given console lines and replies, and a file system that opens every path and encodes
  every text, and the local variables of an elimination loop that still has two other
  possibilities.
\<close>

definition demo_lib :: "(pystr \<times> pyval) list \<Rightarrow> pylib" where
  "demo_lib table =
     \<lparr>json_loads = (\<lambda>text. case map_of table text of
                                None \<Rightarrow> Inl JSONDecodeError | Some v \<Rightarrow> Inr v),
      json_dumps = (\<lambda>v. []), format_value = (\<lambda>v. [])\<rparr>"

definition demo_world :: "pystr list \<Rightarrow> pystr list \<Rightarrow> pystr list \<Rightarrow> world" where
  "demo_world lines llm crew =
     \<lparr>state = default_state, console = lines, llm_replies = llm, crew_replies = crew,
      uuid_source = (\<lambda>n. str ''id''), uuid_count = 0, files = Map.empty,
      can_open = (\<lambda>path. True), can_encode = (\<lambda>text. True), kickoffs = []\<rparr>"

definition demo_vars :: elimination_vars where
  "demo_vars =
     \<lparr>diagnosis_conclusion = PStr (str ''sprain''),
      diagnosis_basis = PStr (str ''swelling''),
      list_of_other_diagnosis_possibility =
        PList [PDict [(PStr (str ''name''), PStr (str ''fracture''))],
               PDict [(PStr (str ''name''), PStr (str ''contusion''))]],
      str_of_other_diagnosis_possibility = str ''name:fracture; name:contusion'',
      dialectics_for_agent = PStr zh_no_dialectics_yet,
      ready_to_treatment_plan = False\<rparr>"

text \<open>
  Replies, each as the JSON text an agent sends and as the value \<open>json.loads\<close> gives for
  that text: of the inquiry agent (the inquiry is not complete; it is), of the diagnosis
  agent (no other possibility, one suggested examination) and of the elimination agent
  (no further inquiry; further inquiry, one other possibility left and no auxiliary
  check suggested).
\<close>

definition text_incomplete :: pystr where
  "text_incomplete =
       str ''{\"inquiry_analysis\": \"onset unclear\", \"supplementary_inq''
       @ str ''uiries\": [], \"inquiry_complete\": \"no\"}''"

definition reply_incomplete :: pydict where
  "reply_incomplete =
     [(PStr (str ''inquiry_analysis''), PStr (str ''onset unclear'')),
      (PStr (str ''supplementary_inquiries''), PList []),
      (PStr (str ''inquiry_complete''), PStr (str ''no''))]"

definition text_complete :: pystr where
  "text_complete =
       str ''{\"inquiry_analysis\": \"clear history\", \"supplementary_inq''
       @ str ''uiries\": [], \"inquiry_complete\": \"Yes\"}''"

definition reply_complete :: pydict where
  "reply_complete =
     [(PStr (str ''inquiry_analysis''), PStr (str ''clear history'')),
      (PStr (str ''supplementary_inquiries''), PList []),
      (PStr (str ''inquiry_complete''), PStr (str ''Yes''))]"

definition text_diagnosis :: pystr where
  "text_diagnosis =
       str ''{\"diagnosis_conclusion\": \"sprain\", \"diagnosis_basis\": \"s''
       @ str ''welling\", \"other_diagnosis_possibility\": [], \"suggested_''
       @ str ''question\": \"pain at night?\", \"suggested_auxiliary_examin''
       @ str ''ations\": [{\"examination_name\": \"X-ray\"}]}''"

definition reply_diagnosis :: pydict where
  "reply_diagnosis =
     [(PStr (str ''diagnosis_conclusion''), PStr (str ''sprain'')),
      (PStr (str ''diagnosis_basis''), PStr (str ''swelling'')),
      (PStr (str ''other_diagnosis_possibility''), PList []),
      (PStr (str ''suggested_question''), PStr (str ''pain at night?'')),
      (PStr (str ''suggested_auxiliary_examinations''), PList [PDict [(PStr (str ''examination_name''), PStr (str ''X-ray''))]])]"

definition text_no_further :: pystr where
  "text_no_further =
       str ''{\"further_inquiries_needed\": \"No\", \"diagnosis_conclusion''
       @ str ''\": \"fracture\", \"diagnosis_basis\": \"X-ray\"}''"

definition reply_no_further :: pydict where
  "reply_no_further =
     [(PStr (str ''further_inquiries_needed''), PStr (str ''No'')),
      (PStr (str ''diagnosis_conclusion''), PStr (str ''fracture'')),
      (PStr (str ''diagnosis_basis''), PStr (str ''X-ray''))]"

definition text_no_checks :: pystr where
  "text_no_checks =
       str ''{\"further_inquiries_needed\": \"yes\", \"diagnosis_conclusio''
       @ str ''n\": \"fracture\", \"diagnosis_basis\": \"X-ray\", \"other_diagn''
       @ str ''osis_possibility\": [{\"name\": \"contusion\"}], \"suggested_q''
       @ str ''uestion\": \"pain at night?\"}''"

definition reply_no_checks :: pydict where
  "reply_no_checks =
     [(PStr (str ''further_inquiries_needed''), PStr (str ''yes'')),
      (PStr (str ''diagnosis_conclusion''), PStr (str ''fracture'')),
      (PStr (str ''diagnosis_basis''), PStr (str ''X-ray'')),
      (PStr (str ''other_diagnosis_possibility''), PList [PDict [(PStr (str ''name''), PStr (str ''contusion''))]]),
      (PStr (str ''suggested_question''), PStr (str ''pain at night?''))]"

text \<open>The table of the sample \<open>json.loads\<close>: the five replies, an empty list and an
  empty object.\<close>

definition demo_table :: "(pystr \<times> pyval) list" where
  "demo_table =
     [(text_incomplete, PDict reply_incomplete),
      (text_complete, PDict reply_complete),
      (text_diagnosis, PDict reply_diagnosis),
      (text_no_further, PDict reply_no_further),
      (text_no_checks, PDict reply_no_checks),
      (str ''[]'', PList []),
      (str ''{}'', PDict [])]"

text \<open>An outline with one examination result and one recorded question and answer.\<close>

definition demo_outline :: "ProcessOutline \<Rightarrow> ProcessOutline" where
  "demo_outline p =
     p\<lparr>supplementary_auxiliary_examinations := [(PStr (str ''MRI''), PStr (str ''normal''))],
       suggested_diagnostic_dialectics := [[(PStr (str ''pain at night?''), PStr (str ''no''))]]\<rparr>"

lemmas demo_texts =
  text_incomplete_def text_complete_def text_diagnosis_def text_no_further_def
  text_no_checks_def

lemmas demo_defs =
  demo_world_def demo_vars_def demo_outline_def reply_incomplete_def reply_complete_def
  reply_diagnosis_def reply_no_further_def reply_no_checks_def str_def

text \<open>What the sample \<open>json.loads\<close> gives, and what the fence stripping makes of the two
  replies of the inquiry agent.\<close>

lemma demo_loads [simp]:
  "json_loads (demo_lib demo_table) text_incomplete = Inr (PDict reply_incomplete)"
  "json_loads (demo_lib demo_table) text_complete = Inr (PDict reply_complete)"
  "json_loads (demo_lib demo_table) text_diagnosis = Inr (PDict reply_diagnosis)"
  "json_loads (demo_lib demo_table) text_no_further = Inr (PDict reply_no_further)"
  "json_loads (demo_lib demo_table) text_no_checks = Inr (PDict reply_no_checks)"
  "json_loads (demo_lib demo_table) (str ''[]'') = Inr (PList [])"
  "json_loads (demo_lib demo_table) (str ''{}'') = Inr (PDict [])"
  "json_loads (demo_lib demo_table) [] = Inl JSONDecodeError"
  "json_loads (demo_lib demo_table) (str ''plan'') = Inl JSONDecodeError"
  "json_loads (demo_lib demo_table) (str ''```json {} ```'') = Inl JSONDecodeError"
  by (simp_all add: demo_lib_def demo_table_def demo_texts str_def)

lemma demo_clean [simp]:
  "clean_and_parse_json text_incomplete = text_incomplete"
  "clean_and_parse_json text_complete = text_complete"
  "strip text_incomplete = text_incomplete"
  "strip text_complete = text_complete"
  "prefix (str ''{'') text_incomplete"
  "prefix (str ''{'') text_complete"
  "text_incomplete \<noteq> []"
  "text_complete \<noteq> []"
  by (simp_all add: demo_texts fence_eval)

text \<open>The same facts with the literals written as code points.\<close>

lemmas demo_loads_points [simp] = demo_loads(6,7,9,10) [unfolded str_def, simplified]

lemmas demo_clean_points [simp] = demo_clean(5,6) [unfolded str_def, simplified]

section \<open>Properties of the stages\<close>

lemmas action_defs =
  and_then_def ret_def raise_def lift_def gets_def modify_def input_def llm_call_def
  kickoff_def uuid4_def write_file_def

lemma key_eq_refl [simp]: "key_eq k k"
  by (simp add: key_eq_def)

lemma dict_get_set_same [simp]: "dict_get (dict_set d k v) k = Some v"
  by (induction d k v rule: dict_set.induct) auto



subsection \<open>The manual treatment plan\<close>

text \<open>
  When the file of the plan cannot be opened, the bypass ends with \<open>OSError\<close>: the typed
  plan is already stored in the state, no file is touched, and the section is not
  marked complete.
\<close>

lemma unwritable_plan_file:
  assumes "console w = skip # plan # rest" and "lower skip = str ''q''"
    and "\<not> can_open w (treatment_plan_path (uuid_source w (uuid_count w)))"
  shows "\<exists>w'. treatment_plan_creation lib p_diagnosis_result w = (Inl OSError, w')
      \<and> files w' = files w
      \<and> dict_get (treatment_plan (state w')) (PStr (str ''manual_treatment_plan'')) = Some (PStr plan)
      \<and> kickoffs w' = kickoffs w
      \<and> complete_sections (outline w') = complete_sections (outline w)"
  using assms
  by (simp add: treatment_plan_creation_def action_defs set_manual_treatment_plan_def world_updates)

text \<open>
  Claim C8. When the operator answers the treatment-planning prompt with \<open>q\<close> (in either
  case) and then types a plan, and the file at the path built from the identifier just
  drawn can be opened and the plan encoded, the stage completes; that file holds exactly
  the typed text; \<open>treatment_plan\<close> of the state holds that text under
  \<open>manual_treatment_plan\<close>; and no crew has been kicked off: the log of kickoffs and the
  replies still to come are what they were.
\<close>

theorem manual_plan_bypass:
  assumes "console w = skip # plan # rest" and "lower skip = str ''q''"
    and "can_open w (treatment_plan_path (uuid_source w (uuid_count w)))"
    and "can_encode w plan"
  shows "\<exists>w'. treatment_plan_creation lib p_diagnosis_result w = (Inr (outline w'), w')
      \<and> files w' = (files w)(treatment_plan_path (uuid_source w (uuid_count w)) \<mapsto> plan)
      \<and> dict_get (treatment_plan (state w')) (PStr (str ''manual_treatment_plan'')) = Some (PStr plan)
      \<and> kickoffs w' = kickoffs w
      \<and> crew_replies w' = crew_replies w
      \<and> llm_replies w' = llm_replies w
      \<and> complete_sections (outline w') = complete_sections (outline w) @ [str ''treatment plan'']
      \<and> console w' = rest"
  using assms
  by (simp add: treatment_plan_creation_def action_defs set_manual_treatment_plan_def world_updates)

theorem manual_plan_bypass_witness:
  "files (snd (treatment_plan_creation (demo_lib demo_table) []
        (demo_world [str ''Q'', str ''rest and ice''] [] [])))
     (str ''treatment_plans/treatment_plan_id.md'') = Some (str ''rest and ice'')
   \<and> dict_get (treatment_plan (state (snd (treatment_plan_creation (demo_lib demo_table) []
        (demo_world [str ''Q'', str ''rest and ice''] [] [])))))
     (PStr (str ''manual_treatment_plan'')) = Some (PStr (str ''rest and ice''))
   \<and> kickoffs (snd (treatment_plan_creation (demo_lib demo_table) []
        (demo_world [str ''Q'', str ''rest and ice''] [] []))) = []"
  using manual_plan_bypass [of "demo_world [str ''Q'', str ''rest and ice''] [] []"
      "str ''Q''" "str ''rest and ice''" "[]" "demo_lib demo_table" "[]"]
  by (auto simp: demo_defs str_def lower_def lower_char_def treatment_plan_path_def)

subsection \<open>The bindings of the treatment-plan crew\<close>

text \<open>
  Claim C10. When the operator does not bypass treatment planning, the crew is kicked
  off with the bindings \<open>treatment_plan_inputs\<close>. In them
  \<open>suggested_diagnostic_dialectics\<close> is bound to the mapping of supplementary auxiliary
  examinations, which is never the list of recorded question and answer pairs, and the
  bindings do not depend on that list at all.
\<close>

theorem treatment_plan_dialectics_binding:
  assumes "console w = skip # rest" and "lower skip \<noteq> str ''q''"
  shows "kickoffs (snd (treatment_plan_creation lib p_diagnosis_result w))
       = kickoffs w @ [(TreatmentPlanCrew, treatment_plan_inputs (state w) p_diagnosis_result)]
    \<and> map_of (treatment_plan_inputs (state w) p_diagnosis_result)
         (str ''suggested_diagnostic_dialectics'')
       = Some (PDict (supplementary_auxiliary_examinations (outline w)))
    \<and> PDict (supplementary_auxiliary_examinations (outline w))
       \<noteq> PList (map PDict (suggested_diagnostic_dialectics (outline w)))
    \<and> (\<forall>ds. treatment_plan_inputs
          ((state w)\<lparr>process_outline :=
             (process_outline (state w))\<lparr>suggested_diagnostic_dialectics := ds\<rparr>\<rparr>)
          p_diagnosis_result
        = treatment_plan_inputs (state w) p_diagnosis_result)"
proof (intro conjI allI)
  show "kickoffs (snd (treatment_plan_creation lib p_diagnosis_result w))
       = kickoffs w @ [(TreatmentPlanCrew, treatment_plan_inputs (state w) p_diagnosis_result)]"
    using assms
    by (simp add: treatment_plan_creation_def action_defs update_treatment_plan_def
        world_updates Let_def split: list.splits option.splits prod.splits sum.splits)
  show "map_of (treatment_plan_inputs (state w) p_diagnosis_result)
         (str ''suggested_diagnostic_dialectics'')
       = Some (PDict (supplementary_auxiliary_examinations (outline w)))"
    by (simp add: treatment_plan_inputs_def str_def outline_def)
qed (simp_all add: treatment_plan_inputs_def)

text \<open>
  A state with one examination result and one recorded question and answer: the crew
  gets the examination result under both names.
\<close>

theorem treatment_plan_dialectics_binding_witness:
  "map (\<lambda>(c, inputs). (c, map_of inputs (str ''suggested_diagnostic_dialectics'')))
     (kickoffs (snd (treatment_plan_creation (demo_lib demo_table) []
        (update_outline demo_outline (demo_world [[]] [] [str ''{}''])))))
   = [(TreatmentPlanCrew, Some (PDict [(PStr (str ''MRI''), PStr (str ''normal''))]))]"
  using treatment_plan_dialectics_binding
    [of "update_outline demo_outline (demo_world [[]] [] [str ''{}''])" "[]" "[]"
      "demo_lib demo_table" "[]"]
  by (simp add: demo_defs world_updates lower_def)

subsection \<open>The ways out of the elimination loop\<close>





subsection \<open>What the loops and the stages leave alone\<close>

lemma keeps_snd: "keeps p m \<Longrightarrow> p (snd (m w)) = p w"
  by (simp add: keeps_def)

lemma keeps_ask_supplementary:
  assumes "\<And>w c. p (w\<lparr>console := c\<rparr>) = p w"
    and "\<And>w k v. p (set_supplementary_inquiry k v w) = p w"
  shows "keeps p (ask_supplementary qs n i)"
  by (induction n arbitrary: i) (auto intro!: keeps_intros keeps_input keeps_modify assms)

lemma keeps_ask_examinations:
  assumes "\<And>w c. p (w\<lparr>console := c\<rparr>) = p w"
    and "\<And>w k v. p (set_auxiliary_examination k v w) = p w"
  shows "keeps p (ask_examinations exams n i)"
  by (induction n arbitrary: i) (auto intro!: keeps_intros keeps_input keeps_modify assms)

lemma keeps_elimination_loop:
  assumes c: "\<And>w c. p (w\<lparr>console := c\<rparr>) = p w"
    and a: "\<And>w k v. p (set_auxiliary_examination k v w) = p w"
    and d: "\<And>w d. p (append_dialectics d w) = p w"
    and r: "\<And>w c. p (w\<lparr>crew_replies := c\<rparr>) = p w"
    and k: "\<And>w c. p (w\<lparr>kickoffs := c\<rparr>) = p w"
  shows "keeps p (elimination_loop lib audience v)"
  unfolding keeps_def
proof
  fix w
  show "p (snd (elimination_loop lib audience v w)) = p w"
  proof (induction lib audience v w rule: elimination_loop.induct)
    case (1 lib audience v w)
    let ?k = "kickoff PossibilitiesEliminationCrew
        (elimination_inputs audience v (supplementary_auxiliary_examinations (outline w)))"
    have kk: "p (snd (?k w)) = p w"
      by (rule keeps_snd, rule keeps_kickoff) (rule r k)+
    show ?case
    proof (cases "ready_to_treatment_plan v")
      case True
      then show ?thesis by (subst elimination_loop.simps) simp
    next
      case False
      show ?thesis
      proof (cases "?k w")
        case (Pair x1 w1)
        with kk have p1: "p w1 = p w" by simp
        show ?thesis
        proof (cases x1)
          case (Inl e)
          with Pair False p1 show ?thesis by (subst elimination_loop.simps) simp
        next
          case (Inr raw)
          have ks: "p (snd (elimination_step lib v raw w1)) = p w1"
            by (rule keeps_snd, rule keeps_elimination_step) (rule c a d)+
          show ?thesis
          proof (cases "elimination_step lib v raw w1")
            case (Pair x2 w2)
            with ks p1 have p2: "p w2 = p w" by simp
            show ?thesis
            proof (cases x2)
              case (Inl e)
              with Pair \<open>?k w = (x1, w1)\<close> Inr False p2 show ?thesis
                by (subst elimination_loop.simps) simp
            next
              case (Inr v')
              have "p (snd (elimination_loop lib audience v' w2)) = p w2"
                using False \<open>?k w = (x1, w1)\<close> \<open>x1 = Inr raw\<close> Pair Inr
                by (intro "1.IH") auto
              with Pair \<open>?k w = (x1, w1)\<close> \<open>x1 = Inr raw\<close> Inr False p2 show ?thesis
                by (subst elimination_loop.simps) simp
            qed
          qed
        qed
      qed
    qed
  qed
qed

lemma keeps_inquiry_after_reply:
  assumes "\<And>w c. p (w\<lparr>console := c\<rparr>) = p w"
    and "\<And>w k v. p (set_supplementary_inquiry k v w) = p w"
    and "\<And>w n. p (append_section n w) = p w"
  shows "keeps p (inquiry_after_reply lib response)"
  unfolding inquiry_after_reply_def Let_def
  by (intro keeps_intros keeps_input keeps_modify keeps_ask_supplementary assms)

lemma keeps_inquiry_body:
  assumes "\<And>w c. p (w\<lparr>console := c\<rparr>) = p w"
    and "\<And>w k v. p (set_supplementary_inquiry k v w) = p w"
    and "\<And>w n. p (append_section n w) = p w"
    and "\<And>w c. p (w\<lparr>llm_replies := c\<rparr>) = p w"
  shows "keeps p (inquiry_body lib)"
  unfolding inquiry_body_def
  by (intro keeps_intros keeps_llm_call keeps_inquiry_after_reply assms)

lemma keeps_inquiry_loop:
  assumes c: "\<And>w c. p (w\<lparr>console := c\<rparr>) = p w"
    and s: "\<And>w k v. p (set_supplementary_inquiry k v w) = p w"
    and a: "\<And>w n. p (append_section n w) = p w"
    and l: "\<And>w c. p (w\<lparr>llm_replies := c\<rparr>) = p w"
  shows "keeps p (inquiry_loop lib i)"
  unfolding keeps_def
proof
  fix w
  show "p (snd (inquiry_loop lib i w)) = p w"
  proof (induction lib i w rule: inquiry_loop.induct)
    case (1 lib iter_times w)
    have kb: "p (snd (inquiry_body lib w)) = p w"
      by (rule keeps_snd, rule keeps_inquiry_body) (rule c s a l)+
    show ?case
    proof (cases "str ''initial_inquiry'' \<notin> set (complete_sections (outline w)) \<and> iter_times < 2")
      case False
      then show ?thesis by (subst inquiry_loop.simps) auto
    next
      case True
      show ?thesis
      proof (cases "inquiry_body lib w")
        case (Pair x w')
        with kb have p1: "p w' = p w" by simp
        show ?thesis
        proof (cases x)
          case (Inl e)
          with Pair True p1 show ?thesis by (subst inquiry_loop.simps) simp
        next
          case (Inr u)
          have "p (snd (inquiry_loop lib (iter_times + 1) w')) = p w'"
            using True Pair Inr by (intro "1.IH") auto
          with Pair Inr True p1 show ?thesis by (subst inquiry_loop.simps) simp
        qed
      qed
    qed
  qed
qed

lemma keeps_update_treatment_plan:
  "(\<And>w d. p (w\<lparr>state := (state w)\<lparr>treatment_plan := d\<rparr>\<rparr>) = p w)
     \<Longrightarrow> keeps p (update_treatment_plan v)"
  by (simp add: keeps_def update_treatment_plan_def split: prod.splits)

subsection \<open>The audience level\<close>

text \<open>The audience level of the state of a world.\<close>

definition level :: "world \<Rightarrow> pystr" where
  "level w = audience_level (state w)"

lemma level_frame [simp]:
  "level (w\<lparr>console := c\<rparr>) = level w"
  "level (w\<lparr>llm_replies := c\<rparr>) = level w"
  "level (w\<lparr>crew_replies := c\<rparr>) = level w"
  "level (w\<lparr>kickoffs := k\<rparr>) = level w"
  "level (w\<lparr>uuid_count := n\<rparr>) = level w"
  "level (w\<lparr>files := f\<rparr>) = level w"
  "level (w\<lparr>state := (state w)\<lparr>treatment_plan := d\<rparr>\<rparr>) = level w"
  "level (update_outline g w) = level w"
  "level (set_diagnosis_result a b w) = level w"
  "level (set_manual_treatment_plan plan w) = level w"
  by (simp_all add: level_def update_outline_def set_diagnosis_result_def
      set_manual_treatment_plan_def)

lemma level_frame2 [simp]:
  "level (append_section n w) = level w"
  "level (set_supplementary_inquiry k v w) = level w"
  "level (set_auxiliary_examination k v w) = level w"
  "level (append_dialectics d w) = level w"
  by (simp_all add: append_section_def set_supplementary_inquiry_def
      set_auxiliary_examination_def append_dialectics_def)

lemma keeps_level_inquiry: "keeps level (inquiry_assistance lib p_state)"
  unfolding inquiry_assistance_def
  by (intro keeps_intros keeps_inquiry_loop) simp_all

lemma keeps_level_diagnosis: "keeps level (diagnosis_assistance lib p_outline)"
  unfolding diagnosis_assistance_def diagnosis_after_reply_def Let_def
  by (intro keeps_intros keeps_input keeps_modify keeps_kickoff keeps_ask_examinations
      keeps_elimination_loop) simp_all

lemma keeps_level_treatment: "keeps level (treatment_plan_creation lib p_diagnosis_result)"
  unfolding treatment_plan_creation_def
  by (intro keeps_intros keeps_input keeps_modify keeps_kickoff keeps_uuid4 keeps_write_file
      keeps_update_treatment_plan) simp_all

lemma keeps_level_report: "keeps level (multiagents_report lib p_outline)"
  unfolding multiagents_report_def
  by (intro keeps_intros keeps_kickoff keeps_uuid4 keeps_write_file) simp_all

lemma get_user_input_result:
  "get_user_input w =
     (Inr (state (set_audience_level (str ''professional'') (set_intake w))),
      set_audience_level (str ''professional'') (set_intake w))"
  by (simp add: get_user_input_def and_then_def modify_def gets_def Let_def audience_levels_def
      lower_def lower_char_def str_def)

text \<open>
  Claim C7. The intake stage never fails and leaves the audience level
  \<open>professional\<close>, one of \<open>patient\<close>, \<open>professional\<close>, \<open>expert\<close>: its answer is fixed in the
  source, and it is among the levels the stage accepts (which are
  \<open>non-professional\<close>, \<open>professional\<close> and \<open>top-expert\<close>). It is the only assignment:
  each of the four later stages, whatever it returns or raises, leaves the level as it
  found it, so that at the end of every run, completed or not, the level is still
  \<open>professional\<close>.
\<close>

theorem audience_level_fixed_at_intake:
  "fst (get_user_input w) = Inr (state (snd (get_user_input w)))
   \<and> level (snd (get_user_input w)) = str ''professional''
   \<and> level (snd (get_user_input w)) \<in> {str ''patient'', str ''professional'', str ''expert''}
   \<and> keeps level (inquiry_assistance lib p_state)
   \<and> keeps level (diagnosis_assistance lib p_outline)
   \<and> keeps level (treatment_plan_creation lib p_diagnosis_result)
   \<and> keeps level (multiagents_report lib p_outline)
   \<and> level (snd (kickoff_flow lib w)) = str ''professional''"
proof -
  have g: "level (snd (get_user_input w')) = str ''professional''" for w'
    by (simp add: get_user_input_result level_def set_audience_level_def)
  have "keeps level (\<lambda>w. (and_then (inquiry_assistance lib st) (\<lambda>p_outline.
     and_then (diagnosis_assistance lib p_outline) (\<lambda>p_diagnosis_result.
     and_then (treatment_plan_creation lib p_diagnosis_result) (\<lambda>p_outline'.
     multiagents_report lib p_outline')))) w)" for st
    by (intro keeps_intros keeps_level_inquiry keeps_level_diagnosis keeps_level_treatment
        keeps_level_report)
  then have r: "level (snd ((and_then (inquiry_assistance lib st) (\<lambda>p_outline.
     and_then (diagnosis_assistance lib p_outline) (\<lambda>p_diagnosis_result.
     and_then (treatment_plan_creation lib p_diagnosis_result) (\<lambda>p_outline'.
     multiagents_report lib p_outline')))) w')) = level w'" for st w'
    by (simp add: keeps_def)
  have "level (snd (rehab_flow lib w')) = str ''professional''" for w'
    using g [of w'] r
    by (simp add: rehab_flow_def and_then_def [of get_user_input] get_user_input_result)
  then have f: "level (snd (kickoff_flow lib w)) = str ''professional''"
    by (simp add: kickoff_flow_def)
  show ?thesis
    using g [of w] f keeps_level_inquiry keeps_level_diagnosis keeps_level_treatment
      keeps_level_report
    by (simp add: get_user_input_result)
qed

theorem audience_level_fixed_at_intake_witness:
  "level (snd (kickoff_flow (demo_lib demo_table) (demo_world [] [] []))) = str ''professional''
   \<and> level (snd (get_user_input (demo_world [] [] []))) = str ''professional''"
  using audience_level_fixed_at_intake [of "demo_world [] [] []" "demo_lib demo_table"]
  by simp

subsection \<open>The passes of the inquiry loop\<close>

lemma inquiry_body_llm_replies:
  "llm_replies (snd (inquiry_body lib w)) = tl (llm_replies w)"
proof (cases "llm_replies w")
  case Nil
  then show ?thesis by (simp add: inquiry_body_def and_then_def llm_call_def)
next
  case (Cons r rs)
  have "keeps llm_replies (inquiry_after_reply lib r)"
    by (rule keeps_inquiry_after_reply) (simp_all add: world_updates)
  then have "llm_replies (snd (inquiry_after_reply lib r (w\<lparr>llm_replies := rs\<rparr>))) = rs"
    by (simp add: keeps_def)
  with Cons show ?thesis by (simp add: inquiry_body_def and_then_def llm_call_def)
qed

lemma inquiry_body_called:
  "fst (inquiry_body lib w) = Inr u \<Longrightarrow> llm_replies w \<noteq> []"
  by (auto simp: inquiry_body_def and_then_def llm_call_def)

lemma inquiry_loop_counts:
  "length (llm_replies (snd (inquiry_loop lib i w))) \<le> length (llm_replies w)
   \<and> length (llm_replies w) \<le> length (llm_replies (snd (inquiry_loop lib i w))) + (2 - i)
   \<and> (\<forall>n. fst (inquiry_loop lib i w) = Inr n \<longrightarrow>
         i \<le> n \<and> (i \<le> 2 \<longrightarrow> n \<le> 2)
         \<and> length (llm_replies w) = length (llm_replies (snd (inquiry_loop lib i w))) + (n - i))"
proof (induction lib i w rule: inquiry_loop.induct)
  case (1 lib i w)
  show ?case
  proof (cases "str ''initial_inquiry'' \<notin> set (complete_sections (outline w)) \<and> i < 2")
    case False
    then have "inquiry_loop lib i w = (Inr i, w)"
      by (subst inquiry_loop.simps) auto
    then show ?thesis by simp
  next
    case True
    obtain x w' where b: "inquiry_body lib w = (x, w')" by (cases "inquiry_body lib w")
    from inquiry_body_llm_replies [of lib w] b
    have l: "llm_replies w' = tl (llm_replies w)" by simp
    show ?thesis
    proof (cases x)
      case (Inl e)
      with b True have "inquiry_loop lib i w = (Inl e, w')"
        by (subst inquiry_loop.simps) simp
      with l True show ?thesis by (cases "llm_replies w") auto
    next
      case (Inr u)
      with b True have eq: "inquiry_loop lib i w = inquiry_loop lib (i + 1) w'"
        by (subst inquiry_loop.simps) simp
      from b Inr inquiry_body_called [of lib w u] have "llm_replies w \<noteq> []" by simp
      with l have len: "length (llm_replies w) = Suc (length (llm_replies w'))"
        by (cases "llm_replies w") auto
      from "1.IH" [OF True b [symmetric] Inr]
      have ih: "length (llm_replies (snd (inquiry_loop lib (i + 1) w'))) \<le> length (llm_replies w')
        \<and> length (llm_replies w') \<le> length (llm_replies (snd (inquiry_loop lib (i + 1) w'))) + (2 - (i + 1))
        \<and> (\<forall>n. fst (inquiry_loop lib (i + 1) w') = Inr n \<longrightarrow>
             i + 1 \<le> n \<and> (i + 1 \<le> 2 \<longrightarrow> n \<le> 2)
             \<and> length (llm_replies w') = length (llm_replies (snd (inquiry_loop lib (i + 1) w'))) + (n - (i + 1)))"
        .
      from True have "i < 2" by simp
      with ih len show ?thesis unfolding eq by auto
    qed
  qed
qed

text \<open>
  Claim C5. The loop returns at once, its counter unchanged, when \<open>initial_inquiry\<close> is
  among the complete sections or the counter has reached 2; otherwise it runs one pass
  and goes on with the counter increased by one. Every pass calls the model once, and
  in every run of the stage, completed or not, at most two replies of the model are
  used; a loop started at 0 that ends without an exception ends with a counter of at
  most 2, the number of replies it has used.
\<close>

theorem inquiry_loop_at_most_two_passes:
  "(str ''initial_inquiry'' \<in> set (complete_sections (outline w)) \<or> 2 \<le> i
      \<longrightarrow> inquiry_loop lib i w = (Inr i, w))
   \<and> (str ''initial_inquiry'' \<notin> set (complete_sections (outline w)) \<and> i < 2
      \<longrightarrow> inquiry_loop lib i w
          = and_then (inquiry_body lib) (\<lambda>u. inquiry_loop lib (i + 1)) w)
   \<and> length (llm_replies (snd (inquiry_assistance lib p_state w))) \<le> length (llm_replies w)
   \<and> length (llm_replies w) \<le> length (llm_replies (snd (inquiry_assistance lib p_state w))) + 2
   \<and> (\<forall>n. fst (inquiry_loop lib 0 w) = Inr n \<longrightarrow>
         n \<le> 2
         \<and> length (llm_replies w) = length (llm_replies (snd (inquiry_loop lib 0 w))) + n)"
proof (intro conjI impI)
  assume "str ''initial_inquiry'' \<in> set (complete_sections (outline w)) \<or> 2 \<le> i"
  then show "inquiry_loop lib i w = (Inr i, w)"
    by (subst inquiry_loop.simps) auto
next
  assume "str ''initial_inquiry'' \<notin> set (complete_sections (outline w)) \<and> i < 2"
  then show "inquiry_loop lib i w = and_then (inquiry_body lib) (\<lambda>u. inquiry_loop lib (i + 1)) w"
    by (subst inquiry_loop.simps) (auto simp: and_then_def split: prod.splits sum.splits)
next
  have s: "snd (inquiry_assistance lib p_state w) = snd (inquiry_loop lib 0 w)"
    by (simp add: inquiry_assistance_def and_then_def gets_def split: prod.splits sum.splits)
  from inquiry_loop_counts [of lib 0 w]
  show "length (llm_replies (snd (inquiry_assistance lib p_state w))) \<le> length (llm_replies w)"
    and "length (llm_replies w) \<le> length (llm_replies (snd (inquiry_assistance lib p_state w))) + 2"
    unfolding s by simp_all
  from inquiry_loop_counts [of lib 0 w]
  show "\<forall>n. fst (inquiry_loop lib 0 w) = Inr n \<longrightarrow>
         n \<le> 2
         \<and> length (llm_replies w) = length (llm_replies (snd (inquiry_loop lib 0 w))) + n"
    by simp
qed

lemmas inquiry_eval =
  inquiry_loop.simps inquiry_body_def inquiry_after_reply_def action_defs world_updates
  py_get_def py_len_def py_lower_def dict_get_default_def key_eq_def lower_def
  lower_char_def default_state_def Let_def

text \<open>Three replies that say the inquiry is not complete: two are used, one is left.\<close>

theorem inquiry_loop_at_most_two_passes_witness:
  "fst (inquiry_loop (demo_lib demo_table) 0
        (demo_world [] [text_incomplete, text_incomplete, text_incomplete] [])) = Inr 2
   \<and> llm_replies (snd (inquiry_loop (demo_lib demo_table) 0
        (demo_world [] [text_incomplete, text_incomplete, text_incomplete] []))) = [text_incomplete]"
  using inquiry_loop_at_most_two_passes
    [of "demo_world [] [text_incomplete, text_incomplete, text_incomplete] []" 0
      "demo_lib demo_table"]
  by (simp add: demo_defs inquiry_eval)

subsection \<open>A diagnosis without other possibilities\<close>

lemma and_then_laws [simp]:
  "and_then (lift (Inr x)) f = f x"
  "and_then (lift (Inl e)) f = raise e"
  "and_then (ret x) f = f x"
  "and_then (raise e) f = raise e"
  by (auto simp: and_then_def lift_def ret_def raise_def fun_eq_iff)

lemma and_then_gets [simp]: "and_then (gets g) f w = f (g w) w"
  by (simp add: and_then_def gets_def)

lemma and_then_modify [simp]: "and_then (modify g) f w = f () (g w)"
  by (simp add: and_then_def modify_def)

lemma and_then_input_Cons:
  "console w = l # ls \<Longrightarrow> and_then input f w = f l (w\<lparr>console := ls\<rparr>)"
  by (simp add: and_then_def input_def)

lemma and_then_kickoff_Cons:
  "crew_replies w = r # rs \<Longrightarrow>
     and_then (kickoff c inputs) f w
       = f r (w\<lparr>kickoffs := kickoffs w @ [(c, inputs)], crew_replies := rs\<rparr>)"
  by (simp add: and_then_def kickoff_def Let_def)

lemma and_then_InrE:
  assumes "and_then m f w = (Inr r, w')"
  obtains x w1 where "m w = (Inr x, w1)" and "f x w1 = (Inr r, w')"
  using assms by (auto simp: and_then_def split: prod.splits sum.splits)










subsection \<open>The complete sections of a run\<close>

text \<open>The complete sections of the state of a world.\<close>

definition sections :: "world \<Rightarrow> pystr list" where
  "sections w = complete_sections (outline w)"

text \<open>
  \<open>returns_with p Q m\<close>: whenever the statement \<open>m\<close> returns, \<open>Q\<close> relates the part \<open>p\<close> of
  the world before and after.
\<close>

definition returns_with :: "(world \<Rightarrow> 'x) \<Rightarrow> ('x \<Rightarrow> 'x \<Rightarrow> bool) \<Rightarrow> 'a action \<Rightarrow> bool" where
  "returns_with p Q m \<longleftrightarrow> (\<forall>w x w'. m w = (Inr x, w') \<longrightarrow> Q (p w) (p w'))"

lemma returns_with_finish:
  "returns_with sections (\<lambda>a b. b = a @ [n])
     (and_then (modify (append_section n)) (\<lambda>u. gets g))"
  by (simp add: returns_with_def gets_def sections_def world_updates)

lemma returns_with_and_then:
  "keeps p m \<Longrightarrow> (\<And>x. returns_with p Q (f x)) \<Longrightarrow> returns_with p Q (and_then m f)"
  unfolding returns_with_def keeps_def
  by (auto elim!: and_then_InrE) (metis snd_conv)

lemma returns_with_raise: "returns_with p Q (raise e)"
  by (simp add: returns_with_def raise_def)

lemma returns_with_if:
  "returns_with p Q a \<Longrightarrow> returns_with p Q b \<Longrightarrow> returns_with p Q (if c then a else b)"
  by simp

lemma returns_with_case_option:
  "returns_with p Q a \<Longrightarrow> (\<And>x. returns_with p Q (b x))
     \<Longrightarrow> returns_with p Q (case v of None \<Rightarrow> a | Some x \<Rightarrow> b x)"
  by (cases v) simp_all

lemma returns_with_case_sum:
  "(\<And>e. returns_with p Q (a e)) \<Longrightarrow> (\<And>x. returns_with p Q (b x))
     \<Longrightarrow> returns_with p Q (case v of Inl e \<Rightarrow> a e | Inr x \<Rightarrow> b x)"
  by (cases v) simp_all

lemmas returns_with_intros =
  returns_with_finish returns_with_and_then returns_with_raise returns_with_if
  returns_with_case_option returns_with_case_sum

lemma sections_frame [simp]:
  "sections (w\<lparr>console := c1\<rparr>) = sections w"
  "sections (w\<lparr>llm_replies := c2\<rparr>) = sections w"
  "sections (w\<lparr>crew_replies := c3\<rparr>) = sections w"
  "sections (w\<lparr>kickoffs := ks\<rparr>) = sections w"
  "sections (w\<lparr>uuid_count := uc\<rparr>) = sections w"
  "sections (w\<lparr>files := f\<rparr>) = sections w"
  "sections (w\<lparr>state := (state w)\<lparr>treatment_plan := tp\<rparr>\<rparr>) = sections w"
  "sections (set_diagnosis_result a b w) = sections w"
  "sections (set_manual_treatment_plan plan w) = sections w"
  "sections (set_supplementary_inquiry k v w) = sections w"
  "sections (set_auxiliary_examination k v w) = sections w"
  "sections (append_dialectics d w) = sections w"
  "sections (set_intake w) = sections w"
  "sections (set_audience_level lv w) = sections w"
  "sections (append_section n w) = sections w @ [n]"
  by (simp_all add: sections_def world_updates set_manual_treatment_plan_def)

lemma diagnosis_appends_section:
  "returns_with sections (\<lambda>a b. b = a @ [str ''diagnosis''])
     (diagnosis_assistance lib p_outline)"
  unfolding diagnosis_assistance_def diagnosis_after_reply_def Let_def
  by (intro returns_with_intros keeps_intros keeps_input keeps_modify keeps_kickoff
      keeps_ask_examinations keeps_elimination_loop) simp_all

lemma treatment_appends_section:
  "returns_with sections (\<lambda>a b. b = a @ [str ''treatment plan''])
     (treatment_plan_creation lib p_diagnosis_result)"
  unfolding treatment_plan_creation_def
  by (intro returns_with_intros keeps_intros keeps_input keeps_modify keeps_kickoff
      keeps_uuid4 keeps_write_file keeps_update_treatment_plan) simp_all

lemma keeps_sections_report: "keeps sections (multiagents_report lib p_outline)"
  unfolding multiagents_report_def
  by (intro keeps_intros keeps_kickoff keeps_uuid4 keeps_write_file) simp_all

text \<open>
  \<open>marks_at_most n m\<close>: whatever the statement \<open>m\<close> returns or raises, the complete
  sections are afterwards what they were, or have gained the one entry \<open>n\<close>.
\<close>

definition marks_at_most :: "pystr \<Rightarrow> 'a action \<Rightarrow> bool" where
  "marks_at_most n m \<longleftrightarrow>
     (\<forall>w. sections (snd (m w)) = sections w \<or> sections (snd (m w)) = sections w @ [n])"

lemma marks_keeps: "keeps sections m \<Longrightarrow> marks_at_most n m"
  by (simp add: marks_at_most_def keeps_def)

lemma marks_and_then:
  "keeps sections m \<Longrightarrow> (\<And>x. marks_at_most n (f x)) \<Longrightarrow> marks_at_most n (and_then m f)"
  unfolding marks_at_most_def keeps_def
  by (auto simp: and_then_def split: prod.splits sum.splits) (metis snd_conv)+

lemma marks_if:
  "marks_at_most n a \<Longrightarrow> marks_at_most n b \<Longrightarrow> marks_at_most n (if c then a else b)"
  by simp

lemma marks_case_option:
  "marks_at_most n a \<Longrightarrow> (\<And>x. marks_at_most n (b x))
     \<Longrightarrow> marks_at_most n (case v of None \<Rightarrow> a | Some x \<Rightarrow> b x)"
  by (cases v) simp_all

lemma marks_case_sum:
  "(\<And>e. marks_at_most n (a e)) \<Longrightarrow> (\<And>x. marks_at_most n (b x))
     \<Longrightarrow> marks_at_most n (case v of Inl e \<Rightarrow> a e | Inr x \<Rightarrow> b x)"
  by (cases v) simp_all

lemma marks_append: "marks_at_most n (modify (append_section n))"
  by (simp add: marks_at_most_def modify_def)

lemma marks_raise: "marks_at_most n (raise e)"
  by (simp add: marks_at_most_def raise_def)

lemma marks_ret: "marks_at_most n (ret x)"
  by (simp add: marks_at_most_def ret_def)

lemma inquiry_body_marks: "marks_at_most (str ''initial_inquiry'') (inquiry_body lib)"
  unfolding inquiry_body_def inquiry_after_reply_def Let_def
  by (intro marks_and_then marks_if marks_case_sum marks_append marks_raise marks_ret
      keeps_intros keeps_llm_call keeps_modify keeps_ask_supplementary) simp_all

lemma inquiry_loop_marks:
  "sections (snd (inquiry_loop lib i w)) = sections w
   \<or> sections (snd (inquiry_loop lib i w)) = sections w @ [str ''initial_inquiry'']"
proof (induction lib i w rule: inquiry_loop.induct)
  case (1 lib i w)
  show ?case
  proof (cases "str ''initial_inquiry'' \<notin> set (complete_sections (outline w)) \<and> i < 2")
    case False
    then have "inquiry_loop lib i w = (Inr i, w)"
      by (subst inquiry_loop.simps) auto
    then show ?thesis by simp
  next
    case True
    obtain x w' where b: "inquiry_body lib w = (x, w')" by (cases "inquiry_body lib w")
    from inquiry_body_marks [of lib] b
    have m: "sections w' = sections w \<or> sections w' = sections w @ [str ''initial_inquiry'']"
      by (auto simp: marks_at_most_def dest: spec [of _ w])
    show ?thesis
    proof (cases x)
      case (Inl e)
      with b True have "inquiry_loop lib i w = (Inl e, w')"
        by (subst inquiry_loop.simps) simp
      with m show ?thesis by simp
    next
      case (Inr u)
      with b True have eq: "inquiry_loop lib i w = inquiry_loop lib (i + 1) w'"
        by (subst inquiry_loop.simps) simp
      from m show ?thesis
      proof
        assume s: "sections w' = sections w"
        from "1.IH" [OF True b [symmetric] Inr] s show ?thesis unfolding eq by simp
      next
        assume s: "sections w' = sections w @ [str ''initial_inquiry'']"
        then have "str ''initial_inquiry'' \<in> set (complete_sections (outline w'))"
          by (simp add: sections_def)
        then have "inquiry_loop lib (i + 1) w' = (Inr (i + 1), w')"
          by (subst inquiry_loop.simps) simp
        with s show ?thesis unfolding eq by simp
      qed
    qed
  qed
qed

lemma returns_withD:
  "returns_with p Q m \<Longrightarrow> m w = (Inr x, w') \<Longrightarrow> Q (p w) (p w')"
  by (auto simp: returns_with_def)

lemmas flow_eval =
  kickoff_flow_def rehab_flow_def get_user_input_def inquiry_assistance_def
  diagnosis_assistance_def treatment_plan_creation_def multiagents_report_def
  set_manual_treatment_plan_def update_treatment_plan_def audience_levels_def
  treatment_plan_path_def report_path_def dict_update_def py_iter_def
  inquiry_eval demo_defs

text \<open>
  \<open>says_yes lib response\<close>: the response, without its code fence, parses to an object
  whose field \<open>inquiry_complete\<close> is \<open>yes\<close> in any letter case. This is the test
  \<open>supplemetary_inquiry_dict.get("inquiry_complete", "").lower() == "yes"\<close> of the source.
\<close>

definition says_yes :: "pylib \<Rightarrow> pystr \<Rightarrow> bool" where
  "says_yes lib response \<longleftrightarrow>
     (case json_loads lib (clean_and_parse_json response) of
        Inl e \<Rightarrow> False
      | Inr supplemetary_inquiry_dict \<Rightarrow>
          (case py_get supplemetary_inquiry_dict (str ''inquiry_complete'') (PStr []) of
             Inl e \<Rightarrow> False
           | Inr field \<Rightarrow> py_lower field = Inr (str ''yes'')))"

text \<open>A pass of the inquiry loop that returns has marked the inquiry complete exactly
  when its reply says \<open>yes\<close>.\<close>

lemma ask_supplementary_sections:
  "ask_supplementary qs n i w = (x, w') \<Longrightarrow> sections w' = sections w"
  using keeps_ask_supplementary [of sections qs n i]
  by (auto simp: keeps_def dest: spec [of _ w])

lemma lift_eq: "lift r w = (Inr x, w') \<longleftrightarrow> r = Inr x \<and> w' = w"
  by (auto simp: lift_def)

lemma modify_eq: "modify f w = (Inr x, w') \<longleftrightarrow> w' = f w"
  by (auto simp: modify_def)

lemma ret_eq: "ret y w = (Inr x, w') \<longleftrightarrow> x = y \<and> w' = w"
  by (auto simp: ret_def)

lemma raise_eq: "raise e w = (Inr x, w') \<longleftrightarrow> False"
  by (auto simp: raise_def)

lemma inquiry_after_reply_sections:
  assumes "inquiry_after_reply lib response w = (Inr u, w')"
  shows "sections w' = (if says_yes lib response
           then sections w @ [str ''initial_inquiry''] else sections w)"
  using assms unfolding inquiry_after_reply_def Let_def says_yes_def
  by (auto simp: lift_eq modify_eq ret_eq raise_eq split: if_splits sum.splits
        elim!: and_then_InrE dest!: ask_supplementary_sections)


lemma inquiry_body_sections:
  assumes "inquiry_body lib w = (Inr u, w')"
  shows "\<exists>response rest. llm_replies w = response # rest \<and> llm_replies w' = rest
       \<and> sections w' = (if says_yes lib response
            then sections w @ [str ''initial_inquiry''] else sections w)"
proof -
  from assms obtain response w1
    where c: "llm_call w = (Inr response, w1)"
      and a: "inquiry_after_reply lib response w1 = (Inr u, w')"
    unfolding inquiry_body_def by (elim and_then_InrE)
  from c obtain rest where r: "llm_replies w = response # rest"
    and w1: "w1 = w\<lparr>llm_replies := rest\<rparr>"
    by (auto simp: llm_call_def split: list.splits)
  from inquiry_body_llm_replies [of lib w] assms r have "llm_replies w' = rest"
    by simp
  moreover from inquiry_after_reply_sections [OF a] w1
  have "sections w' = (if says_yes lib response
            then sections w @ [str ''initial_inquiry''] else sections w)"
    by simp
  ultimately show ?thesis using r by simp
qed

text \<open>The loop, started at the counter \<open>i\<close>, reads at most the next \<open>2 - i\<close> replies.\<close>

lemma inquiry_loop_sections:
  assumes "inquiry_loop lib i w = (Inr n, w')"
    and "str ''initial_inquiry'' \<notin> set (sections w)"
  shows "sections w' = (if \<exists>response \<in> set (take (2 - i) (llm_replies w)). says_yes lib response
           then sections w @ [str ''initial_inquiry''] else sections w)"
  using assms
proof (induction lib i w rule: inquiry_loop.induct)
  case (1 lib i w)
  note absent = \<open>str ''initial_inquiry'' \<notin> set (sections w)\<close>
  show ?case
  proof (cases "i < 2")
    case False
    with "1.prems"(1) have "w' = w"
      by (subst (asm) inquiry_loop.simps) simp
    with False show ?thesis by simp
  next
    case True
    with absent have guard: "str ''initial_inquiry'' \<notin> set (complete_sections (outline w)) \<and> i < 2"
      by (simp add: sections_def)
    obtain x w1 where b: "inquiry_body lib w = (x, w1)" by (cases "inquiry_body lib w")
    from "1.prems"(1) guard b obtain u where x: "x = Inr u"
      and next_pass: "inquiry_loop lib (i + 1) w1 = (Inr n, w')"
      by (subst (asm) inquiry_loop.simps) (auto split: sum.splits)
    from inquiry_body_sections [OF b [unfolded x]] obtain response rest
      where r: "llm_replies w = response # rest" and r1: "llm_replies w1 = rest"
        and s1: "sections w1 = (if says_yes lib response
            then sections w @ [str ''initial_inquiry''] else sections w)"
      by blast
    from True have t: "take (2 - i) (response # rest) = response # take (2 - (i + 1)) rest"
    proof -
      from True obtain k where k: "2 - i = Suc k" and "2 - (i + 1) = k"
        by (cases "2 - i") auto
      then show ?thesis by simp
    qed
    show ?thesis
    proof (cases "says_yes lib response")
      case yes: True
      with s1 have "str ''initial_inquiry'' \<in> set (complete_sections (outline w1))"
        by (simp add: sections_def)
      with next_pass have "w' = w1"
        by (subst (asm) inquiry_loop.simps) simp
      with yes s1 r t show ?thesis by simp
    next
      case no: False
      with s1 absent have "str ''initial_inquiry'' \<notin> set (sections w1)" by simp
      from "1.IH" [OF guard b [symmetric] x next_pass this] no s1 r r1 t
      show ?thesis by simp
    qed
  qed
qed

text \<open>
  Claim C1, as the code has it. When a run of the flow completes, the complete
  sections are \<open>diagnosis\<close> and \<open>treatment plan\<close>, in this order and once each, with
  \<open>initial_inquiry\<close> before them, once, or not at all; and \<open>initial_inquiry\<close> is among
  them exactly when one of the first two replies of the model endpoint, the only ones
  the inquiry loop can read in its two passes, says \<open>yes\<close>.
\<close>

theorem complete_sections_of_completed_run:
  assumes run: "kickoff_flow lib w = (Inr r, w')"
  shows "(complete_sections (outline w') = [str ''diagnosis'', str ''treatment plan'']
        \<or> complete_sections (outline w')
            = [str ''initial_inquiry'', str ''diagnosis'', str ''treatment plan''])
       \<and> (str ''initial_inquiry'' \<in> set (complete_sections (outline w'))
            \<longleftrightarrow> (\<exists>response \<in> set (take 2 (llm_replies w)). says_yes lib response))"
proof -
  let ?w0 = "w\<lparr>state := default_state\<rparr>"
  have s0: "sections ?w0 = []"
    by (simp add: sections_def outline_def default_state_def)
  from run have "rehab_flow lib ?w0 = (Inr r, w')" by (simp add: kickoff_flow_def)
  then obtain st w1 p1 w2 d w3 p3 w4
    where g: "get_user_input ?w0 = (Inr st, w1)"
      and i: "inquiry_assistance lib st w1 = (Inr p1, w2)"
      and a: "diagnosis_assistance lib p1 w2 = (Inr d, w3)"
      and t: "treatment_plan_creation lib d w3 = (Inr p3, w4)"
      and m: "multiagents_report lib p3 w4 = (Inr r, w')"
    unfolding rehab_flow_def by (elim and_then_InrE) blast
  from g have w1: "w1 = set_audience_level (str ''professional'') (set_intake ?w0)"
    by (simp add: get_user_input_result)
  with s0 have s1: "sections w1 = []" by simp
  from w1 have l1: "llm_replies w1 = llm_replies w"
    by (simp add: world_updates)
  from i obtain n where "inquiry_loop lib 0 w1 = (Inr n, w2)"
    by (auto simp: inquiry_assistance_def gets_def elim!: and_then_InrE)
  from inquiry_loop_sections [OF this] s1 l1
  have s2: "sections w2 = (if \<exists>response \<in> set (take 2 (llm_replies w)). says_yes lib response
      then [str ''initial_inquiry''] else [])"
    by simp
  from returns_withD [OF diagnosis_appends_section a]
  have s3: "sections w3 = sections w2 @ [str ''diagnosis'']" .
  from returns_withD [OF treatment_appends_section t]
  have s4: "sections w4 = sections w3 @ [str ''treatment plan'']" .
  from keeps_sections_report [of lib p3] m have s5: "sections w' = sections w4"
    by (auto simp: keeps_def dest: spec [of _ w4])
  have ne: "str ''initial_inquiry'' \<noteq> str ''diagnosis''"
    "str ''initial_inquiry'' \<noteq> str ''treatment plan''"
    by (simp_all add: str_def)
  from s2 s3 s4 s5 ne show ?thesis by (simp add: sections_def)
qed

text \<open>A run in which the first reply of the inquiry agent says \<open>Yes\<close>; the operator
  types the diagnosis and the plan.\<close>

theorem complete_sections_of_completed_run_witness:
  "complete_sections (outline (snd (kickoff_flow (demo_lib demo_table)
        (demo_world [str ''q'', str ''sprain'', str ''swelling'', str ''q'', str ''rest'']
           [text_complete] [str ''report'']))))
     = [str ''initial_inquiry'', str ''diagnosis'', str ''treatment plan'']
   \<and> says_yes (demo_lib demo_table) text_complete"
proof -
  let ?run = "kickoff_flow (demo_lib demo_table)
        (demo_world [str ''q'', str ''sprain'', str ''swelling'', str ''q'', str ''rest'']
           [text_complete] [str ''report''])"
  have "fst ?run = Inr (str ''Summary of multi-agents cooperating to diagonse is done'')"
    by (simp add: flow_eval)
  then have r: "?run = (Inr (str ''Summary of multi-agents cooperating to diagonse is done''),
      snd ?run)"
    by (cases ?run) simp
  have y: "says_yes (demo_lib demo_table) text_complete"
    by (simp add: says_yes_def py_get_def py_lower_def dict_get_default_def key_eq_def
        reply_complete_def lower_def lower_char_def str_def)
  have l: "llm_replies (demo_world [str ''q'', str ''sprain'', str ''swelling'', str ''q'',
      str ''rest''] [text_complete] [str ''report'']) = [text_complete]"
    by (simp add: demo_world_def)
  from complete_sections_of_completed_run [OF r] y l show ?thesis
    by (auto simp: str_def)
qed

text \<open>
  Claim C1 as stated fails: the inquiry agent says \<open>no\<close> twice, the operator types the
  diagnosis and the plan, the run completes, and \<open>initial_inquiry\<close> is not among the
  complete sections.
\<close>

theorem complete_sections_of_completed_run_counterexample:
  "fst (kickoff_flow (demo_lib demo_table)
        (demo_world [str ''q'', str ''sprain'', str ''swelling'', str ''q'', str ''rest'']
           [text_incomplete, text_incomplete] [str ''report'']))
     = Inr (str ''Summary of multi-agents cooperating to diagonse is done'')
   \<and> complete_sections (outline (snd (kickoff_flow (demo_lib demo_table)
        (demo_world [str ''q'', str ''sprain'', str ''swelling'', str ''q'', str ''rest'']
           [text_incomplete, text_incomplete] [str ''report'']))))
     = [str ''diagnosis'', str ''treatment plan'']
   \<and> str ''initial_inquiry'' \<notin> set (complete_sections (outline (snd (kickoff_flow
        (demo_lib demo_table)
        (demo_world [str ''q'', str ''sprain'', str ''swelling'', str ''q'', str ''rest'']
           [text_incomplete, text_incomplete] [str ''report''])))))"
  by (simp add: flow_eval)

subsection \<open>Replies that cannot be used\<close>

text \<open>
  The exception a pass of the inquiry loop ends with when the response, without its
  code fence, is \<open>c\<close> and \<open>json.loads\<close> would raise \<open>e\<close> on it.
\<close>

definition inquiry_error :: "pystr \<Rightarrow> error \<Rightarrow> error" where
  "inquiry_error c e =
     (if strip c = [] then ValueError EmptyResponse
      else if \<not> prefix (str ''{'') (strip c) then ValueError NoObjectStart
      else if e = JSONDecodeError then ValueError JsonParsing
      else e)"

lemma inquiry_loop_malformed:
  assumes "llm_replies w = response # rest"
    and "str ''initial_inquiry'' \<notin> set (complete_sections (outline w))"
    and "iter_times < 2"
    and "strip (clean_and_parse_json response) = []
         \<or> \<not> prefix (str ''{'') (strip (clean_and_parse_json response))
         \<or> json_loads lib (clean_and_parse_json response) = Inl e"
  shows "inquiry_loop lib iter_times w
       = (Inl (inquiry_error (clean_and_parse_json response) e), w\<lparr>llm_replies := rest\<rparr>)"
  using assms
  by (subst inquiry_loop.simps)
     (auto simp: inquiry_body_def inquiry_after_reply_def inquiry_error_def and_then_def
        llm_call_def raise_def Let_def split: if_splits)

lemma inquiry_assistance_malformed_first:
  assumes "llm_replies w = response # rest"
    and "str ''initial_inquiry'' \<notin> set (complete_sections (outline w))"
    and "strip (clean_and_parse_json response) = []
         \<or> \<not> prefix (str ''{'') (strip (clean_and_parse_json response))
         \<or> json_loads lib (clean_and_parse_json response) = Inl e"
  shows "inquiry_assistance lib p_state w
       = (Inl (inquiry_error (clean_and_parse_json response) e), w\<lparr>llm_replies := rest\<rparr>)"
  using inquiry_loop_malformed [OF assms(1,2) _ assms(3), of 0]
  by (simp add: inquiry_assistance_def and_then_def)

lemma inquiry_assistance_malformed_second:
  assumes "inquiry_body lib w = (Inr u, w1)"
    and "str ''initial_inquiry'' \<notin> set (complete_sections (outline w))"
    and "str ''initial_inquiry'' \<notin> set (complete_sections (outline w1))"
    and "llm_replies w1 = response # rest"
    and "strip (clean_and_parse_json response) = []
         \<or> \<not> prefix (str ''{'') (strip (clean_and_parse_json response))
         \<or> json_loads lib (clean_and_parse_json response) = Inl e"
  shows "inquiry_assistance lib p_state w
       = (Inl (inquiry_error (clean_and_parse_json response) e), w1\<lparr>llm_replies := rest\<rparr>)"
proof -
  have "inquiry_loop lib 0 w = inquiry_loop lib (0 + 1) w1"
    using assms(1,2) by (subst inquiry_loop.simps) simp
  also have "\<dots> = (Inl (inquiry_error (clean_and_parse_json response) e),
      w1\<lparr>llm_replies := rest\<rparr>)"
    using inquiry_loop_malformed [OF assms(4) assms(3) _ assms(5), of "0 + 1"] by simp
  finally show ?thesis
    by (simp add: inquiry_assistance_def and_then_def)
qed

lemma diagnosis_assistance_malformed:
  assumes "console w = skip # lines" and "lower skip \<noteq> str ''q''"
    and "crew_replies w = raw # rest" and "json_loads lib raw = Inl e"
  shows "diagnosis_assistance lib p_outline w
       = (Inl e,
          w\<lparr>console := lines,
            kickoffs := kickoffs w @ [(DiagnosisCrew, diagnosis_inputs (state w) p_outline)],
            crew_replies := rest\<rparr>)"
  using assms
  by (simp add: diagnosis_assistance_def and_then_input_Cons and_then_kickoff_Cons raise_def)

lemma elimination_loop_malformed:
  assumes "\<not> ready_to_treatment_plan v"
    and "crew_replies w = raw # rest" and "json_loads lib raw = Inl e"
  shows "elimination_loop lib audience v w
       = (Inl e,
          w\<lparr>kickoffs := kickoffs w @
              [(PossibilitiesEliminationCrew,
                elimination_inputs audience v (supplementary_auxiliary_examinations (outline w)))],
            crew_replies := rest\<rparr>)"
  using assms
  by (subst elimination_loop.simps)
     (simp add: kickoff_def Let_def elimination_step_def raise_def)

lemma treatment_plan_creation_malformed:
  assumes "console w = skip # lines" and "lower skip \<noteq> str ''q''"
    and "crew_replies w = raw # rest" and "json_loads lib raw = Inl e"
  shows "treatment_plan_creation lib p_diagnosis_result w
       = (Inl (if e = JSONDecodeError then ValueError JsonParsing else e),
          w\<lparr>uuid_count := Suc (uuid_count w),
            console := lines,
            kickoffs := kickoffs w @
              [(TreatmentPlanCrew, treatment_plan_inputs (state w) p_diagnosis_result)],
            crew_replies := rest\<rparr>)"
  using assms
  by (simp add: treatment_plan_creation_def action_defs Let_def)

lemma multiagents_report_any_reply:
  assumes "crew_replies w = raw # rest"
    and "can_open w (report_path (uuid_source w (uuid_count w)))"
    and "can_encode w raw"
  shows "multiagents_report lib p_outline w
       = (Inr (str ''Summary of multi-agents cooperating to diagonse is done''),
          w\<lparr>kickoffs := kickoffs w @
              [(MultiAgentsReportCrew, report_inputs lib (state w) p_outline)],
            crew_replies := rest,
            uuid_count := Suc (uuid_count w),
            files := (files w)(report_path (uuid_source w (uuid_count w)) \<mapsto> raw)\<rparr>)"
  using assms
  by (simp add: multiagents_report_def action_defs Let_def)

text \<open>
  Claim C2, as the code has it. In the inquiry stage a response whose text without the
  code fence is empty or white space, does not start with \<open>{\<close>, or makes \<open>json.loads\<close>
  raise, ends the loop in the pass that receives it, the first or the second, and with
  the loop the stage: with a \<open>ValueError\<close> of the stage in the first two cases and for
  \<open>JSONDecodeError\<close>, with the exception of \<open>json.loads\<close> otherwise; nothing of the state
  is changed by that pass. The diagnosis stage, the elimination loop and the
  treatment-planning stage hand the raw reply to \<open>json.loads\<close>, with no fence stripped
  and no look at its first character: a reply on which it raises ends them at once with
  that exception (in treatment planning \<open>JSONDecodeError\<close> becomes a \<open>ValueError\<close> of the
  stage), nothing stored. The report stage parses nothing: whatever the reply is, it is
  written as it is to the report file, when that file can be written, and the stage
  returns.
\<close>

theorem malformed_agent_output:
  "(llm_replies w = response # rest
      \<and> str ''initial_inquiry'' \<notin> set (complete_sections (outline w))
      \<and> iter_times < 2
      \<and> (strip (clean_and_parse_json response) = []
         \<or> \<not> prefix (str ''{'') (strip (clean_and_parse_json response))
         \<or> json_loads lib (clean_and_parse_json response) = Inl e)
    \<longrightarrow> inquiry_loop lib iter_times w
        = (Inl (inquiry_error (clean_and_parse_json response) e), w\<lparr>llm_replies := rest\<rparr>))
   \<and> (llm_replies w = response # rest
      \<and> str ''initial_inquiry'' \<notin> set (complete_sections (outline w))
      \<and> (strip (clean_and_parse_json response) = []
         \<or> \<not> prefix (str ''{'') (strip (clean_and_parse_json response))
         \<or> json_loads lib (clean_and_parse_json response) = Inl e)
    \<longrightarrow> inquiry_assistance lib p_state w
        = (Inl (inquiry_error (clean_and_parse_json response) e), w\<lparr>llm_replies := rest\<rparr>))
   \<and> (inquiry_body lib w = (Inr u, w1)
      \<and> str ''initial_inquiry'' \<notin> set (complete_sections (outline w))
      \<and> str ''initial_inquiry'' \<notin> set (complete_sections (outline w1))
      \<and> llm_replies w1 = response # rest
      \<and> (strip (clean_and_parse_json response) = []
         \<or> \<not> prefix (str ''{'') (strip (clean_and_parse_json response))
         \<or> json_loads lib (clean_and_parse_json response) = Inl e)
    \<longrightarrow> inquiry_assistance lib p_state w
        = (Inl (inquiry_error (clean_and_parse_json response) e), w1\<lparr>llm_replies := rest\<rparr>))
   \<and> (console w = skip # lines \<and> lower skip \<noteq> str ''q''
      \<and> crew_replies w = raw # rest \<and> json_loads lib raw = Inl e
    \<longrightarrow> diagnosis_assistance lib p_outline w
        = (Inl e,
           w\<lparr>console := lines,
             kickoffs := kickoffs w @ [(DiagnosisCrew, diagnosis_inputs (state w) p_outline)],
             crew_replies := rest\<rparr>))
   \<and> (\<not> ready_to_treatment_plan v
      \<and> crew_replies w = raw # rest \<and> json_loads lib raw = Inl e
    \<longrightarrow> elimination_loop lib audience v w
        = (Inl e,
           w\<lparr>kickoffs := kickoffs w @
               [(PossibilitiesEliminationCrew,
                 elimination_inputs audience v (supplementary_auxiliary_examinations (outline w)))],
             crew_replies := rest\<rparr>))
   \<and> (console w = skip # lines \<and> lower skip \<noteq> str ''q''
      \<and> crew_replies w = raw # rest \<and> json_loads lib raw = Inl e
    \<longrightarrow> treatment_plan_creation lib p_diagnosis_result w
        = (Inl (if e = JSONDecodeError then ValueError JsonParsing else e),
           w\<lparr>uuid_count := Suc (uuid_count w),
             console := lines,
             kickoffs := kickoffs w @
               [(TreatmentPlanCrew, treatment_plan_inputs (state w) p_diagnosis_result)],
             crew_replies := rest\<rparr>))
   \<and> (crew_replies w = raw # rest
      \<and> can_open w (report_path (uuid_source w (uuid_count w))) \<and> can_encode w raw
    \<longrightarrow> multiagents_report lib p_outline w
        = (Inr (str ''Summary of multi-agents cooperating to diagonse is done''),
           w\<lparr>kickoffs := kickoffs w @
               [(MultiAgentsReportCrew, report_inputs lib (state w) p_outline)],
             crew_replies := rest,
             uuid_count := Suc (uuid_count w),
             files := (files w)(report_path (uuid_source w (uuid_count w)) \<mapsto> raw)\<rparr>))"
  by (intro conjI impI; elim conjE)
     (rule inquiry_loop_malformed inquiry_assistance_malformed_first
        inquiry_assistance_malformed_second diagnosis_assistance_malformed
        elimination_loop_malformed treatment_plan_creation_malformed
        multiagents_report_any_reply; assumption)+

text \<open>
  A blank reply in the second pass of the loop; a blank first reply; a first reply that
  says the inquiry is not complete and a second that is a list; and a reply that is no
  JSON for each crew, which the report stage writes to its file.
\<close>

theorem malformed_agent_output_witness:
  "fst (inquiry_loop (demo_lib demo_table) 1 (demo_world [] [str '' ''] []))
     = Inl (ValueError EmptyResponse)
   \<and> inquiry_assistance (demo_lib demo_table) default_state
        (demo_world [] [str '' '', text_complete] [])
     = (Inl (ValueError EmptyResponse), demo_world [] [text_complete] [])
   \<and> fst (inquiry_assistance (demo_lib demo_table) default_state
        (demo_world [] [text_incomplete, str ''[]''] []))
     = Inl (ValueError NoObjectStart)
   \<and> fst (diagnosis_assistance (demo_lib demo_table) (outline (demo_world [] [] []))
        (demo_world [[]] [] [[]])) = Inl JSONDecodeError
   \<and> fst (elimination_loop (demo_lib demo_table) (str ''professional'') demo_vars
        (demo_world [] [] [str ''```json {} ```''])) = Inl JSONDecodeError
   \<and> fst (treatment_plan_creation (demo_lib demo_table) [] (demo_world [[]] [] [str ''plan'']))
     = Inl (ValueError JsonParsing)
   \<and> files (snd (multiagents_report (demo_lib demo_table) (outline (demo_world [] [] []))
        (demo_world [] [] [str ''plan''])))
        (str ''summary_reports/report_id.md'') = Some (str ''plan'')"
proof -
  note t = malformed_agent_output
  let ?lib = "demo_lib demo_table"
  have a: "fst (inquiry_loop ?lib 1 (demo_world [] [str '' ''] []))
     = Inl (ValueError EmptyResponse)"
    using t [where w = "demo_world [] [str '' ''] []"
        and response = "str '' ''" and rest = "[]" and iter_times = 1 and lib = ?lib
        and e = JSONDecodeError, THEN conjunct1]
    by (simp add: demo_defs default_state_def outline_def fence_eval inquiry_error_def)
  have b: "inquiry_assistance ?lib default_state
      (demo_world [] [str '' '', text_complete] [])
     = (Inl (ValueError EmptyResponse), demo_world [] [text_complete] [])"
    using t [where w = "demo_world [] [str '' '', text_complete] []"
        and response = "str '' ''" and rest = "[text_complete]" and lib = ?lib
        and e = JSONDecodeError and p_state = default_state, THEN conjunct2, THEN conjunct1]
    by (simp add: demo_defs default_state_def outline_def fence_eval inquiry_error_def)
  let ?w = "demo_world [] [text_incomplete, str ''[]''] []"
  have body: "inquiry_body ?lib ?w = (Inr (), snd (inquiry_body ?lib ?w))"
    by (simp add: demo_defs inquiry_eval)
  have before: "str ''initial_inquiry'' \<notin> set (complete_sections (outline ?w))"
    by (simp add: demo_defs default_state_def outline_def)
  have after: "str ''initial_inquiry''
      \<notin> set (complete_sections (outline (snd (inquiry_body ?lib ?w))))"
    by (simp add: demo_defs inquiry_eval)
  have later: "llm_replies (snd (inquiry_body ?lib ?w)) = [str ''[]'']"
    by (simp add: demo_defs inquiry_eval)
  have bad: "strip (clean_and_parse_json (str ''[]'')) \<noteq> []"
    "\<not> prefix (str ''{'') (strip (clean_and_parse_json (str ''[]'')))"
    by (simp_all add: fence_eval)
  have c: "fst (inquiry_assistance ?lib default_state ?w) = Inl (ValueError NoObjectStart)"
    using t [where w = ?w and lib = ?lib and u = "()" and ?w1.0 = "snd (inquiry_body ?lib ?w)"
        and response = "str ''[]''" and rest = "[]" and e = JSONDecodeError
        and p_state = default_state,
        THEN conjunct2, THEN conjunct2, THEN conjunct1]
      body before after later bad
    by (simp add: inquiry_error_def)
  have d: "fst (diagnosis_assistance ?lib (outline (demo_world [] [] []))
        (demo_world [[]] [] [[]])) = Inl JSONDecodeError"
    using t [where w = "demo_world [[]] [] [[]]" and skip = "[]" and lines = "[]" and raw = "[]"
        and rest = "[]" and lib = ?lib and e = JSONDecodeError
        and p_outline = "outline (demo_world [] [] [])",
        THEN conjunct2, THEN conjunct2, THEN conjunct2, THEN conjunct1]
    by (simp add: demo_defs lower_def str_def)
  have e: "fst (elimination_loop ?lib (str ''professional'') demo_vars
        (demo_world [] [] [str ''```json {} ```''])) = Inl JSONDecodeError"
    using t [where v = demo_vars and w = "demo_world [] [] [str ''```json {} ```'']"
        and raw = "str ''```json {} ```''" and rest = "[]" and lib = ?lib
        and e = JSONDecodeError and audience = "str ''professional''",
        THEN conjunct2, THEN conjunct2, THEN conjunct2, THEN conjunct2, THEN conjunct1]
    by (simp add: demo_defs str_def)
  have f: "fst (treatment_plan_creation ?lib [] (demo_world [[]] [] [str ''plan'']))
     = Inl (ValueError JsonParsing)"
    using t [where w = "demo_world [[]] [] [str ''plan'']" and skip = "[]" and lines = "[]"
        and raw = "str ''plan''" and rest = "[]" and lib = ?lib and e = JSONDecodeError
        and p_diagnosis_result = "[]",
        THEN conjunct2, THEN conjunct2, THEN conjunct2, THEN conjunct2, THEN conjunct2, THEN conjunct1]
    by (simp add: demo_defs lower_def str_def)
  have g: "files (snd (multiagents_report ?lib (outline (demo_world [] [] []))
        (demo_world [] [] [str ''plan''])))
        (str ''summary_reports/report_id.md'') = Some (str ''plan'')"
    using t [where w = "demo_world [] [] [str ''plan'']" and raw = "str ''plan''" and rest = "[]"
        and lib = ?lib and p_outline = "outline (demo_world [] [] [])",
        THEN conjunct2, THEN conjunct2, THEN conjunct2, THEN conjunct2, THEN conjunct2, THEN conjunct2]
    by (simp add: demo_defs report_path_def str_def)
  from a b c d e f g show ?thesis by simp
qed

text \<open>
  Claim C2 as stated, for every stage, fails. The report stage returns on an empty
  reply and writes it to the report file. The treatment-planning stage returns on the
  reply \<open>[]\<close>, which does not start with \<open>{\<close>: \<open>update\<close> with an empty list changes
  nothing.
\<close>

theorem malformed_agent_output_counterexample:
  "strip (clean_and_parse_json []) = []
   \<and> fst (multiagents_report (demo_lib demo_table) (outline (demo_world [] [] []))
        (demo_world [] [] [[]]))
     = Inr (str ''Summary of multi-agents cooperating to diagonse is done'')
   \<and> files (snd (multiagents_report (demo_lib demo_table) (outline (demo_world [] [] []))
        (demo_world [] [] [[]]))) (str ''summary_reports/report_id.md'') = Some []
   \<and> \<not> prefix (str ''{'') (strip (clean_and_parse_json (str ''[]'')))
   \<and> map_sum id complete_sections
        (fst (treatment_plan_creation (demo_lib demo_table) [] (demo_world [[]] [] [str ''[]''])))
     = Inr [str ''treatment plan'']"
  by (simp add: flow_eval fence_eval)

end
